theory Spec2Isabelle
  imports Main "HOL-Library.Multiset"
begin

section \<open>JavaScript values\<close>

text \<open>
  A value produced by \<^verbatim>\<open>JSON.parse\<close>. Numbers are the integer-valued ones (page sizes,
  history lengths, offsets); \<^verbatim>\<open>undefined\<close>, which is not a JSON value, is \<open>None\<close> of
  \<open>json option\<close>. An object is the list of its own properties.
\<close>

datatype json =
    JNull
  | JBool bool
  | JNum int
  | JStr string
  | JArr "json list"
  | JObj "(string \<times> json) list"

text \<open>\<^verbatim>\<open>!!v\<close>: the values JavaScript takes for true in a condition.\<close>

fun truthy :: "json option \<Rightarrow> bool" where
  "truthy None = False"
| "truthy (Some JNull) = False"
| "truthy (Some (JBool b)) = b"
| "truthy (Some (JNum n)) = (n \<noteq> 0)"
| "truthy (Some (JStr s)) = (s \<noteq> [])"
| "truthy (Some (JArr xs)) = True"
| "truthy (Some (JObj kvs)) = True"

text \<open>\<^verbatim>\<open>typeof v === 'object'\<close> (true of \<^verbatim>\<open>null\<close>, of arrays and of objects).\<close>

fun isObjectType :: "json option \<Rightarrow> bool" where
  "isObjectType (Some JNull) = True"
| "isObjectType (Some (JArr xs)) = True"
| "isObjectType (Some (JObj kvs)) = True"
| "isObjectType v = False"

text \<open>
  \<^verbatim>\<open>v.k\<close> for the property names this server reads (none of them is a property of
  arrays or of \<^verbatim>\<open>Object.prototype\<close>): the own property of an object, \<^verbatim>\<open>undefined\<close>
  elsewhere. The server reads a property of \<^verbatim>\<open>null\<close> or \<^verbatim>\<open>undefined\<close> only behind a
  truthiness guard.
\<close>

fun getProp :: "json option \<Rightarrow> string \<Rightarrow> json option" where
  "getProp (Some (JObj kvs)) k = map_of kvs k"
| "getProp v k = None"

text \<open>
  \<^verbatim>\<open>a !== b\<close> is the negation of \<open>strictEq a b\<close>. Primitives are compared by value. An
  array or an object is compared by reference, and every request is parsed into objects
  of its own, so a stored one is never identical to one that arrives later.
\<close>

fun strictEq :: "json option \<Rightarrow> json option \<Rightarrow> bool" where
  "strictEq None None = True"
| "strictEq (Some JNull) (Some JNull) = True"
| "strictEq (Some (JBool a)) (Some (JBool b)) = (a = b)"
| "strictEq (Some (JNum a)) (Some (JNum b)) = (a = b)"
| "strictEq (Some (JStr a)) (Some (JStr b)) = (a = b)"
| "strictEq a b = False"

text \<open>
  \<^verbatim>\<open>xs.slice(start)\<close> and \<^verbatim>\<open>xs.slice(start, end)\<close>: a negative index counts from the end,
  and both are clamped to the array.
\<close>

definition relIndex :: "int \<Rightarrow> nat \<Rightarrow> nat" where
  "relIndex i len = (if i < 0 then nat (max (int len + i) 0) else min (nat i) len)"

definition slice1 :: "int \<Rightarrow> 'a list \<Rightarrow> 'a list" where
  "slice1 start xs = drop (relIndex start (length xs)) xs"

definition slice2 :: "int \<Rightarrow> int \<Rightarrow> 'a list \<Rightarrow> 'a list" where
  "slice2 start fin xs =
     (let k = relIndex start (length xs); f = relIndex fin (length xs)
      in take (f - k) (drop k xs))"

subsection \<open>Strings and numbers\<close>

definition isDigit :: "char \<Rightarrow> bool" where
  "isDigit c = (48 \<le> (of_char c :: nat) \<and> (of_char c :: nat) \<le> 57)"

definition digitChar :: "nat \<Rightarrow> char" where
  "digitChar d = char_of (48 + d)"

fun digits :: "nat \<Rightarrow> string" where
  "digits n = (if n < 10 then [digitChar n] else digits (n div 10) @ [digitChar (n mod 10)])"

declare digits.simps [simp del]

definition String_int :: "int \<Rightarrow> string" where
  "String_int n = (if n < 0 then CHR ''-'' # digits (nat (- n)) else digits (nat n))"

definition isWhiteSpace :: "char \<Rightarrow> bool" where
  "isWhiteSpace c = ((of_char c :: nat) \<in> {9, 10, 11, 12, 13, 32})"

definition digitsValue :: "string \<Rightarrow> nat" where
  "digitsValue ds = foldl (\<lambda>acc c. acc * 10 + ((of_char c :: nat) - 48)) 0 ds"

definition parseInt :: "string \<Rightarrow> int option" where
  "parseInt str =
     (let s1 = dropWhile isWhiteSpace str;
          (neg, s2) = (case s1 of
                         c # cs \<Rightarrow> if c = CHR ''-'' then (True, cs)
                                   else if c = CHR ''+'' then (False, cs) else (False, s1)
                       | [] \<Rightarrow> (False, s1));
          ds = takeWhile isDigit s2
      in if ds = [] then None
         else Some (if neg then - int (digitsValue ds) else int (digitsValue ds)))"

definition looksLikeDate :: "string \<Rightarrow> bool" where
  "looksLikeDate s =
     (10 \<le> length s \<and> list_all (\<lambda>i. isDigit (s ! i)) [0, 1, 2, 3, 5, 6, 8, 9] \<and>
      s ! 4 = CHR ''-'' \<and> s ! 7 = CHR ''-'')"

section \<open>Protocol types (a2a-types.ts)\<close>

type_synonym TaskState = string

text \<open>
  \<open>timestamp\<close> is an ISO-8601 string in the source. The server only ever stores the
  result of \<^verbatim>\<open>new Date().toISOString()\<close> and only ever reads it back with
  \<^verbatim>\<open>new Date(s).getTime()\<close>, so the string is represented by its epoch milliseconds.
\<close>

record TaskStatus =
  state :: TaskState
  message :: "json option"
  timestamp :: "int option"

record Task =
  id_t :: string
  contextId :: "json option"
  status :: TaskStatus
  artifacts :: "json list option"
  history :: "json list option"
  metadata :: "json option"

definition TASK_STATES_WORKING :: TaskState where
  "TASK_STATES_WORKING = ''TASK_STATE_WORKING''"
definition TASK_STATES_COMPLETED :: TaskState where
  "TASK_STATES_COMPLETED = ''TASK_STATE_COMPLETED''"
definition TASK_STATES_FAILED :: TaskState where
  "TASK_STATES_FAILED = ''TASK_STATE_FAILED''"
definition TASK_STATES_CANCELED :: TaskState where
  "TASK_STATES_CANCELED = ''TASK_STATE_CANCELED''"

definition VALID_TASK_STATES :: "TaskState list" where
  "VALID_TASK_STATES =
     [''TASK_STATE_SUBMITTED'', ''TASK_STATE_WORKING'', ''TASK_STATE_INPUT_REQUIRED'',
      ''TASK_STATE_COMPLETED'', ''TASK_STATE_FAILED'', ''TASK_STATE_CANCELED'',
      ''TASK_STATE_REJECTED'',
      ''submitted'', ''working'', ''input-required'', ''completed'', ''failed'',
      ''canceled'', ''rejected'']"

text \<open>The request id: a string or a number; \<^verbatim>\<open>null\<close> or \<^verbatim>\<open>undefined\<close> is \<open>None\<close>.\<close>

datatype RpcId = IdStr string | IdNum int

record JsonRpcError =
  code :: int
  message_e :: string
  data :: "json option"

record ListTasksResponse =
  tasks_l :: "Task list"
  nextPageToken :: string
  pageSize_l :: nat
  totalSize :: nat

text \<open>
  \<open>result\<close> is \<^verbatim>\<open>unknown\<close> in the source; these are the four shapes the server puts
  there: a task, \<^verbatim>\<open>{ task }\<close> (SendMessageResponse), a ListTasksResponse, the agent card.
\<close>

datatype RpcResult =
    ResTask Task
  | ResSendMessage Task
  | ResList ListTasksResponse
  | ResAgentCard

record JsonRpcResponse =
  jsonrpc :: string
  id_r :: "RpcId option"
  result :: "RpcResult option"
  error :: "JsonRpcError option"

definition TASK_NOT_FOUND :: int where "TASK_NOT_FOUND = - 32001"
definition TASK_NOT_CANCELABLE :: int where "TASK_NOT_CANCELABLE = - 32002"
definition UNSUPPORTED_OPERATION :: int where "UNSUPPORTED_OPERATION = - 32004"
definition PARSE_ERROR :: int where "PARSE_ERROR = - 32700"
definition INVALID_REQUEST :: int where "INVALID_REQUEST = - 32600"
definition METHOD_NOT_FOUND :: int where "METHOD_NOT_FOUND = - 32601"
definition INVALID_PARAMS :: int where "INVALID_PARAMS = - 32602"
definition INTERNAL_ERROR :: int where "INTERNAL_ERROR = - 32603"

record GetTaskRequest =
  id_g :: string
  historyLength :: "int option"

record CancelTaskRequest =
  id_c :: string

section \<open>The server (A2AServer)\<close>

text \<open>Terminal states where tasks cannot be canceled or receive more messages.\<close>

definition TERMINAL_STATES :: "TaskState list" where
  "TERMINAL_STATES =
     [''TASK_STATE_COMPLETED'', ''TASK_STATE_FAILED'', ''TASK_STATE_CANCELED'',
      ''TASK_STATE_REJECTED'',
      ''completed'', ''failed'', ''canceled'', ''rejected'']"

text \<open>
  The state of the server is its task map, \<^verbatim>\<open>this.tasks\<close>, in insertion order as a
  JavaScript Map keeps it, together with the two sources of the outside world it reads:
  the clock (\<^verbatim>\<open>new Date()\<close>) and \<^verbatim>\<open>randomUUID()\<close>. \<open>clock s k\<close> is what the \<open>k\<close>-th
  reading of the clock returns and \<open>uuids s k\<close> what the \<open>k\<close>-th call of \<^verbatim>\<open>randomUUID\<close>
  returns; the counters say how many have been made.
\<close>

record server =
  tasks :: "(string \<times> Task) list"
  clock :: "nat \<Rightarrow> int"
  clockReads :: nat
  uuids :: "nat \<Rightarrow> string"
  uuidReads :: nat

definition randomUUID :: "server \<Rightarrow> string \<times> server" where
  "randomUUID s = (uuids s (uuidReads s), s\<lparr>uuidReads := Suc (uuidReads s)\<rparr>)"

text \<open>\<^verbatim>\<open>new Date().toISOString()\<close>\<close>

definition nowISO :: "server \<Rightarrow> int \<times> server" where
  "nowISO s = (clock s (clockReads s), s\<lparr>clockReads := Suc (clockReads s)\<rparr>)"

text \<open>\<^verbatim>\<open>this.tasks.get(k)\<close> and \<^verbatim>\<open>this.tasks.set(k, t)\<close>: a key that is already there keeps
  its place, a new one goes last.\<close>

definition tasks_get :: "(string \<times> Task) list \<Rightarrow> string \<Rightarrow> Task option" where
  "tasks_get m k = map_of m k"

fun tasks_set :: "string \<Rightarrow> Task \<Rightarrow> (string \<times> Task) list \<Rightarrow> (string \<times> Task) list" where
  "tasks_set k t [] = [(k, t)]"
| "tasks_set k t (p # ps) = (if fst p = k then (k, t) # ps else p # tasks_set k t ps)"

text \<open>\<^verbatim>\<open>{ jsonrpc: '2.0', id: id ?? randomUUID(), result }\<close>\<close>

definition jsonRpcSuccess :: "server \<Rightarrow> RpcId option \<Rightarrow> RpcResult \<Rightarrow> JsonRpcResponse \<times> server" where
  "jsonRpcSuccess s rid res =
     (case rid of
        Some i \<Rightarrow> (\<lparr>jsonrpc = ''2.0'', id_r = Some i, result = Some res, error = None\<rparr>, s)
      | None \<Rightarrow>
          (let (u, s') = randomUUID s
           in (\<lparr>jsonrpc = ''2.0'', id_r = Some (IdStr u), result = Some res, error = None\<rparr>, s')))"

definition jsonRpcError :: "server \<Rightarrow> RpcId option \<Rightarrow> int \<Rightarrow> string \<Rightarrow> JsonRpcResponse \<times> server" where
  "jsonRpcError s rid c msg =
     (let e = \<lparr>code = c, message_e = msg, data = None\<rparr>
      in case rid of
           Some i \<Rightarrow> (\<lparr>jsonrpc = ''2.0'', id_r = Some i, result = None, error = Some e\<rparr>, s)
         | None \<Rightarrow>
             (let (u, s') = randomUUID s
              in (\<lparr>jsonrpc = ''2.0'', id_r = Some (IdStr u), result = None, error = Some e\<rparr>, s')))"

subsection \<open>tasks/get\<close>

text \<open>
  \<^verbatim>\<open>tasks/get\<close> and \<^verbatim>\<open>tasks/cancel\<close> do not test the types of their parameters: they
  are taken as GetTaskRequest and CancelTaskRequest type them, \<open>None\<close> for parameters
  that are \<^verbatim>\<open>undefined\<close> or \<^verbatim>\<open>null\<close> and the empty string for an id that is missing
  (\<^verbatim>\<open>!params?.id\<close> holds of both). \<^verbatim>\<open>message/send\<close> and \<^verbatim>\<open>tasks/list\<close> test the types
  themselves and take the parameters as JSON.
\<close>

definition handleTasksGet :: "server \<Rightarrow> RpcId option \<Rightarrow> GetTaskRequest option \<Rightarrow> JsonRpcResponse \<times> server" where
  "handleTasksGet s rid params =
     (case params of
        None \<Rightarrow> jsonRpcError s rid INVALID_PARAMS ''Missing task id''
      | Some p \<Rightarrow>
          if id_g p = [] then jsonRpcError s rid INVALID_PARAMS ''Missing task id''
          else if historyLength p \<noteq> None \<and> the (historyLength p) < 0
            then jsonRpcError s rid INVALID_PARAMS ''historyLength must be non-negative''
          else
            (case tasks_get (tasks s) (id_g p) of
               None \<Rightarrow> jsonRpcError s rid TASK_NOT_FOUND ''Task not found''
             | Some task \<Rightarrow>
                 (let responseTask =
                    (case historyLength p of
                       None \<Rightarrow> task
                     | Some n \<Rightarrow>
                         if n \<ge> 0 then
                           (if n = 0 then task\<lparr>history := None\<rparr>
                            else (case history task of
                                    None \<Rightarrow> task
                                  | Some h \<Rightarrow> task\<lparr>history := Some (slice1 (- n) h)\<rparr>))
                         else task)
                  in jsonRpcSuccess s rid (ResTask responseTask))))"

subsection \<open>tasks/cancel\<close>

definition handleTasksCancel :: "server \<Rightarrow> RpcId option \<Rightarrow> CancelTaskRequest option \<Rightarrow> JsonRpcResponse \<times> server" where
  "handleTasksCancel s rid params =
     (case params of
        None \<Rightarrow> jsonRpcError s rid INVALID_PARAMS ''Missing task id''
      | Some p \<Rightarrow>
          if id_c p = [] then jsonRpcError s rid INVALID_PARAMS ''Missing task id''
          else
            (case tasks_get (tasks s) (id_c p) of
               None \<Rightarrow> jsonRpcError s rid TASK_NOT_FOUND ''Task not found''
             | Some task \<Rightarrow>
                 if state (status task) \<in> set TERMINAL_STATES
                   then jsonRpcError s rid TASK_NOT_CANCELABLE ''Task already in terminal state''
                 else
                   (let (t, s1) = nowISO s;
                        task' = task\<lparr>status := \<lparr>state = TASK_STATES_CANCELED, message = None,
                                                  timestamp = Some t\<rparr>\<rparr>;
                        s2 = s1\<lparr>tasks := tasks_set (id_c p) task' (tasks s1)\<rparr>
                    in jsonRpcSuccess s2 rid (ResTask task'))))"

subsection \<open>tasks/list\<close>

text \<open>
  \<^verbatim>\<open>Array.prototype.sort(cmp)\<close> is a stable sort (ECMAScript 2019), so for a comparator that
  is a consistent ordering its result is determined; it is modelled by insertion from the
  right, which is stable.
\<close>

fun insertBy :: "('a \<Rightarrow> 'a \<Rightarrow> int) \<Rightarrow> 'a \<Rightarrow> 'a list \<Rightarrow> 'a list" where
  "insertBy cmp x [] = [x]"
| "insertBy cmp x (y # ys) = (if cmp x y \<le> 0 then x # y # ys else y # insertBy cmp x ys)"

definition sortBy :: "('a \<Rightarrow> 'a \<Rightarrow> int) \<Rightarrow> 'a list \<Rightarrow> 'a list" where
  "sortBy cmp xs = foldr (insertBy cmp) xs []"

text \<open>\<^verbatim>\<open>t.status.timestamp ? new Date(t.status.timestamp).getTime() : 0\<close>\<close>

definition taskTime :: "Task \<Rightarrow> int" where
  "taskTime t = (case timestamp (status t) of Some ms \<Rightarrow> ms | None \<Rightarrow> 0)"

text \<open>The callback of \<^verbatim>\<open>pageTasks.map\<close>: the task that goes into the page.\<close>

definition pageTask :: "int option \<Rightarrow> bool \<Rightarrow> Task \<Rightarrow> Task" where
  "pageTask historyLength' includeArtifacts t =
     (let task = \<lparr>id_t = id_t t, contextId = contextId t, status = status t,
                   artifacts = None, history = None, metadata = metadata t\<rparr>;
          task1 =
            (if historyLength' = Some 0 then task
             else if historyLength' \<noteq> None \<and> history t \<noteq> None
               then task\<lparr>history := Some (slice1 (- the historyLength') (the (history t)))\<rparr>
             else if history t \<noteq> None then task\<lparr>history := history t\<rparr>
             else task)
      in if includeArtifacts \<and> artifacts t \<noteq> None then task1\<lparr>artifacts := artifacts t\<rparr>
         else task1)"

text \<open>
  \<open>parseDate\<close> is \<^verbatim>\<open>new Date(s).getTime()\<close> on a string of the request: the epoch
  milliseconds, or \<open>None\<close> for an invalid date (NaN).
\<close>

definition handleTasksList ::
  "(string \<Rightarrow> int option) \<Rightarrow> server \<Rightarrow> RpcId option \<Rightarrow> json option \<Rightarrow> JsonRpcResponse \<times> server"
where
  "handleTasksList parseDate s rid params0 =
     (let params = (if truthy params0 then params0 else Some (JObj []));
          pageSize = (case getProp params ''pageSize'' of Some (JNum n) \<Rightarrow> n | _ \<Rightarrow> 50);
          pageToken = (case getProp params ''pageToken'' of Some (JStr x) \<Rightarrow> Some x | _ \<Rightarrow> None);
          contextId' = (case getProp params ''contextId'' of Some (JStr x) \<Rightarrow> Some x | _ \<Rightarrow> None);
          status' = (case getProp params ''status'' of Some (JStr x) \<Rightarrow> Some x | _ \<Rightarrow> None);
          historyLength' =
            (case getProp params ''historyLength'' of Some (JNum n) \<Rightarrow> Some n | _ \<Rightarrow> None);
          statusTimestampAfter =
            (case getProp params ''statusTimestampAfter'' of Some (JStr x) \<Rightarrow> Some x | _ \<Rightarrow> None);
          includeArtifacts = (getProp params ''includeArtifacts'' = Some (JBool True))
      in
      if pageSize < 1 \<or> pageSize > 100
        then jsonRpcError s rid INVALID_PARAMS ''pageSize must be between 1 and 100''
      else if historyLength' \<noteq> None \<and> the historyLength' < 0
        then jsonRpcError s rid INVALID_PARAMS ''historyLength must be non-negative''
      else if status' \<noteq> None \<and> the status' \<notin> set VALID_TASK_STATES
        then jsonRpcError s rid INVALID_PARAMS (''Invalid status: '' @ the status')
      else if statusTimestampAfter \<noteq> None \<and> \<not> looksLikeDate (the statusTimestampAfter)
        then jsonRpcError s rid INVALID_PARAMS
               ''Invalid statusTimestampAfter: must be ISO 8601 format''
      else if statusTimestampAfter \<noteq> None \<and> parseDate (the statusTimestampAfter) = None
        then jsonRpcError s rid INVALID_PARAMS ''Invalid statusTimestampAfter timestamp''
      else
        (let timestampFilter = (case statusTimestampAfter of None \<Rightarrow> None | Some x \<Rightarrow> parseDate x);
             tasks0 = map snd (tasks s);
             tasks1 = (if contextId' \<noteq> None \<and> the contextId' \<noteq> []
                       then filter (\<lambda>t. strictEq (contextId t) (Some (JStr (the contextId')))) tasks0
                       else tasks0);
             tasks2 = (if status' \<noteq> None \<and> the status' \<noteq> []
                       then filter (\<lambda>t. state (status t) = the status') tasks1
                       else tasks1);
             tasks3 = (case timestampFilter of
                         None \<Rightarrow> tasks2
                       | Some f \<Rightarrow>
                           filter (\<lambda>t. case timestamp (status t) of
                                          None \<Rightarrow> False
                                        | Some ms \<Rightarrow> ms \<ge> f) tasks2);
             tasks4 = sortBy (\<lambda>a b. taskTime b - taskTime a) tasks3;
             totalSize' = length tasks4;
             decoded = (case pageToken of None \<Rightarrow> None | Some x \<Rightarrow> parseInt x)
         in
         if pageToken \<noteq> None \<and> the pageToken \<noteq> [] \<and> (decoded = None \<or> the decoded < 0)
           then jsonRpcError s rid INVALID_PARAMS ''Invalid pageToken''
         else
           (let startIndex = (if pageToken \<noteq> None \<and> the pageToken \<noteq> [] then the decoded else 0);
                pageTasks = slice2 startIndex (startIndex + pageSize) tasks4;
                resultTasks = map (pageTask historyLength' includeArtifacts) pageTasks;
                nextStartIndex = startIndex + pageSize;
                nextPageToken' =
                  (if nextStartIndex < int totalSize' then String_int nextStartIndex else [])
            in jsonRpcSuccess s rid
                 (ResList \<lparr>tasks_l = resultTasks, nextPageToken = nextPageToken',
                            pageSize_l = length resultTasks, totalSize = totalSize'\<rparr>))))"

subsection \<open>A client that reads every page\<close>

text \<open>
  A request as ListTasksRequest types it, and the JSON a client sends for it: the fields
  that are set, and no others.
\<close>

record ListTasksRequest =
  contextId_q :: "string option"
  status_q :: "TaskState option"
  pageSize_q :: "int option"
  pageToken_q :: "string option"
  historyLength_q :: "int option"
  statusTimestampAfter_q :: "string option"
  includeArtifacts_q :: "bool option"

definition optField :: "string \<Rightarrow> ('a \<Rightarrow> json) \<Rightarrow> 'a option \<Rightarrow> (string \<times> json) list" where
  "optField k enc v = (case v of None \<Rightarrow> [] | Some x \<Rightarrow> [(k, enc x)])"

definition listParams :: "ListTasksRequest \<Rightarrow> json" where
  "listParams q =
     JObj (optField ''contextId'' JStr (contextId_q q) @
           optField ''status'' JStr (status_q q) @
           optField ''pageSize'' JNum (pageSize_q q) @
           optField ''pageToken'' JStr (pageToken_q q) @
           optField ''historyLength'' JNum (historyLength_q q) @
           optField ''statusTimestampAfter'' JStr (statusTimestampAfter_q q) @
           optField ''includeArtifacts'' JBool (includeArtifacts_q q))"

text \<open>
  The client asks for a page, and while the answer carries a non-empty \<open>nextPageToken\<close>
  asks again with that token; it returns the tasks of all pages, one after the other. The
  first argument bounds the number of requests; \<open>None\<close> is returned when it does not
  suffice or a request is answered with an error.
\<close>

fun followPages ::
  "nat \<Rightarrow> (string \<Rightarrow> int option) \<Rightarrow> server \<Rightarrow> RpcId option \<Rightarrow> ListTasksRequest \<Rightarrow> Task list option"
where
  "followPages 0 parseDate s rid q = None"
| "followPages (Suc fuel) parseDate s rid q =
     (case handleTasksList parseDate s rid (Some (listParams q)) of (r, s') \<Rightarrow>
        (case result r of
           Some (ResList page) \<Rightarrow>
             if nextPageToken page = [] then Some (tasks_l page)
             else (case followPages fuel parseDate s' rid (q\<lparr>pageToken_q := Some (nextPageToken page)\<rparr>) of
                     None \<Rightarrow> None
                   | Some rest \<Rightarrow> Some (tasks_l page @ rest))
         | _ \<Rightarrow> None))"

text \<open>
  What the specification says of the list: the tasks that pass the filters of the request
  (contextId equality, state equality, status timestamp at or after the threshold). A
  contextId filter that is the empty string does not filter, as in the source.
\<close>

definition matchesFilter :: "(string \<Rightarrow> int option) \<Rightarrow> ListTasksRequest \<Rightarrow> Task \<Rightarrow> bool" where
  "matchesFilter parseDate q t =
     ((case contextId_q q of None \<Rightarrow> True | Some c \<Rightarrow> c = [] \<or> contextId t = Some (JStr c)) \<and>
      (case status_q q of None \<Rightarrow> True | Some st \<Rightarrow> state (status t) = st) \<and>
      (case statusTimestampAfter_q q of
         None \<Rightarrow> True
       | Some a \<Rightarrow> (case (parseDate a, timestamp (status t)) of
                      (Some f, Some ms) \<Rightarrow> f \<le> ms
                    | _ \<Rightarrow> False)))"

text \<open>The requests that pass the validation of \<^verbatim>\<open>tasks/list\<close>, page token apart.\<close>

definition validListRequest :: "(string \<Rightarrow> int option) \<Rightarrow> ListTasksRequest \<Rightarrow> bool" where
  "validListRequest parseDate q =
     ((case pageSize_q q of None \<Rightarrow> True | Some n \<Rightarrow> 1 \<le> n \<and> n \<le> 100) \<and>
      (case historyLength_q q of None \<Rightarrow> True | Some n \<Rightarrow> 0 \<le> n) \<and>
      (case status_q q of None \<Rightarrow> True | Some st \<Rightarrow> st \<in> set VALID_TASK_STATES) \<and>
      (case statusTimestampAfter_q q of
         None \<Rightarrow> True
       | Some a \<Rightarrow> looksLikeDate a \<and> parseDate a \<noteq> None))"

text \<open>The offset a page token stands for: \<open>None\<close> for a token the server refuses.\<close>

definition tokenOffset :: "string option \<Rightarrow> int option" where
  "tokenOffset tok =
     (case tok of
        None \<Rightarrow> Some 0
      | Some x \<Rightarrow> if x = [] then Some 0
                 else (case parseInt x of
                         None \<Rightarrow> None
                       | Some d \<Rightarrow> if d < 0 then None else Some d))"

definition pageSizeOf :: "ListTasksRequest \<Rightarrow> int" where
  "pageSizeOf q = (case pageSize_q q of None \<Rightarrow> 50 | Some n \<Rightarrow> n)"

subsection \<open>message/send\<close>

text \<open>
  The handler callback \<^verbatim>\<open>onMessage(message, context)\<close> is code of the hosting application.
  What one call of it does to the server is: the calls of \<^verbatim>\<open>context.sendStatus\<close> and
  \<^verbatim>\<open>context.sendArtifact\<close> it makes before it settles, in order, and then either the
  MessageResult it returns or the error it throws (\<open>Throws e\<close>, with \<open>e\<close> the text
  \<^verbatim>\<open>String(err)\<close>). The callback is a function of its arguments: the message and the
  \<open>taskId\<close> and \<open>contextId\<close> of the context.
\<close>

datatype HandlerEffect = SendStatus TaskStatus | SendArtifact json

datatype MessageResult = ResultMessage json | ResultTask Task | ResultWorking

datatype HandlerOutcome = Returns MessageResult | Throws string

record HandlerRun =
  effects :: "HandlerEffect list"
  outcome :: HandlerOutcome

type_synonym MessageHandler = "json \<Rightarrow> string \<Rightarrow> json option \<Rightarrow> HandlerRun"

text \<open>
  \<open>task\<close> is one object, held by the map and by the closures of the context, so that an
  assignment to a field of it is seen through the map: \<open>storeTask\<close> writes the new value
  of the object at its key.
\<close>

definition storeTask :: "string \<Rightarrow> Task \<Rightarrow> server \<Rightarrow> server" where
  "storeTask taskId task s = s\<lparr>tasks := tasks_set taskId task (tasks s)\<rparr>"

text \<open>\<^verbatim>\<open>sendStatus: (status) => { task.status = { ...status, timestamp: new Date().toISOString() } }\<close>\<close>

definition sendStatus :: "string \<Rightarrow> TaskStatus \<Rightarrow> Task \<times> server \<Rightarrow> Task \<times> server" where
  "sendStatus taskId st = (\<lambda>(task, s).
     (let (now, s1) = nowISO s;
          task' = task\<lparr>status := st\<lparr>timestamp := Some now\<rparr>\<rparr>
      in (task', storeTask taskId task' s1)))"

text \<open>\<^verbatim>\<open>sendArtifact: (artifact) => { task.artifacts = task.artifacts || []; task.artifacts.push(artifact) }\<close>\<close>

definition sendArtifact :: "string \<Rightarrow> json \<Rightarrow> Task \<times> server \<Rightarrow> Task \<times> server" where
  "sendArtifact taskId artifact = (\<lambda>(task, s).
     (let task' = task\<lparr>artifacts :=
                    Some ((case artifacts task of None \<Rightarrow> [] | Some as \<Rightarrow> as) @ [artifact])\<rparr>
      in (task', storeTask taskId task' s)))"

fun applyEffect :: "string \<Rightarrow> HandlerEffect \<Rightarrow> Task \<times> server \<Rightarrow> Task \<times> server" where
  "applyEffect taskId (SendStatus st) = sendStatus taskId st"
| "applyEffect taskId (SendArtifact a) = sendArtifact taskId a"

text \<open>\<^verbatim>\<open>Array.isArray(v)\<close> and \<^verbatim>\<open>v.length\<close> of an array.\<close>

fun isArray :: "json option \<Rightarrow> bool" where
  "isArray (Some (JArr xs)) = True"
| "isArray v = False"

fun arrayLength :: "json option \<Rightarrow> nat" where
  "arrayLength (Some (JArr xs)) = length xs"
| "arrayLength v = 0"

text \<open>
  Lines 516 to 539 of the handler: the task the message goes to is created, or the
  existing one taken, its status set to WORKING, the message pushed on its history, and
  the task set in the map. \<open>existing\<close> is the task \<^verbatim>\<open>message.taskId\<close> names, with its
  key, when the message names one. The result is the state of the server and the object
  \<open>task\<close> when the callback is called, with the \<open>taskId\<close> and \<open>contextId\<close> of its
  context.
\<close>

definition startTask ::
  "server \<Rightarrow> json \<Rightarrow> json option \<Rightarrow> (string \<times> Task) option \<Rightarrow> server \<times> string \<times> json option \<times> Task"
where
  "startTask s msg messageContextId existing =
     (let (taskId, s1) = (case existing of Some (k, t) \<Rightarrow> (k, s) | None \<Rightarrow> randomUUID s);
          (contextId', s2) =
            (if truthy messageContextId then (messageContextId, s1)
             else if existing \<noteq> None \<and> truthy (contextId (snd (the existing)))
               then (contextId (snd (the existing)), s1)
             else (let (u, s') = randomUUID s1 in (Some (JStr u), s')));
          (task, s3) =
            (case existing of
               Some (k, t) \<Rightarrow> (t, s2)
             | None \<Rightarrow>
                 (let (now, s') = nowISO s2
                  in (\<lparr>id_t = taskId, contextId = contextId',
                       status = \<lparr>state = TASK_STATES_WORKING, message = None,
                                 timestamp = Some now\<rparr>,
                       artifacts = Some [], history = Some [], metadata = None\<rparr>, s')));
          (now, s4) = nowISO s3;
          task1 = task\<lparr>status := \<lparr>state = TASK_STATES_WORKING, message = None,
                                   timestamp = Some now\<rparr>\<rparr>;
          task2 = task1\<lparr>history :=
                    Some ((case history task1 of None \<Rightarrow> [] | Some h \<Rightarrow> h) @ [msg])\<rparr>
      in (storeTask taskId task2 s4, taskId, contextId', task2))"

text \<open>
  The handler up to the call of the callback (lines 471 to 552): either it answers with
  an error and the callback is not called, or the callback is called in the state and
  with the arguments \<open>startTask\<close> gives. A \<open>taskId\<close> that is not a string is the key of no
  task.
\<close>

definition messageSendAccept ::
  "server \<Rightarrow> RpcId option \<Rightarrow> json option
     \<Rightarrow> (JsonRpcResponse \<times> server) + (server \<times> string \<times> json option \<times> Task) \<times> json"
where
  "messageSendAccept s rid params =
     (let msg = getProp params ''message''; parts = getProp msg ''parts'' in
      if \<not> truthy params \<or> \<not> isObjectType params
        then Inl (jsonRpcError s rid INVALID_PARAMS ''Invalid params'')
      else if \<not> truthy msg
        then Inl (jsonRpcError s rid INVALID_PARAMS ''Missing message'')
      else if \<not> isObjectType msg
        then Inl (jsonRpcError s rid INVALID_PARAMS ''Invalid message structure'')
      else if \<not> truthy parts \<or> \<not> isArray parts
        then Inl (jsonRpcError s rid INVALID_PARAMS ''Missing or invalid message.parts'')
      else if arrayLength parts = 0
        then Inl (jsonRpcError s rid INVALID_PARAMS ''Message parts array must not be empty'')
      else if \<not> truthy (getProp msg ''role'')
        then Inl (jsonRpcError s rid INVALID_PARAMS ''Missing message.role'')
      else if \<not> truthy (getProp msg ''messageId'')
        then Inl (jsonRpcError s rid INVALID_PARAMS ''Missing message.messageId'')
      else
        (let messageTaskId = getProp msg ''taskId'';
             messageContextId = getProp msg ''contextId''
         in if truthy messageTaskId then
              (case (case messageTaskId of Some (JStr k) \<Rightarrow> map_option (Pair k) (tasks_get (tasks s) k)
                                         | _ \<Rightarrow> None) of
                 None \<Rightarrow> Inl (jsonRpcError s rid TASK_NOT_FOUND ''Task not found'')
               | Some (k, existingTask) \<Rightarrow>
                   if state (status existingTask) \<in> set TERMINAL_STATES
                     then Inl (jsonRpcError s rid UNSUPPORTED_OPERATION ''Task is in terminal state'')
                   else if truthy messageContextId \<and>
                           \<not> strictEq (contextId existingTask) messageContextId
                     then Inl (jsonRpcError s rid INVALID_PARAMS ''contextId does not match task'')
                   else Inr (startTask s (the msg) messageContextId (Some (k, existingTask)), the msg))
            else Inr (startTask s (the msg) messageContextId None, the msg)))"

text \<open>The status message of a failed task: \<^verbatim>\<open>{ role: 'agent', parts: [{ type: 'text', text: String(err) }] }\<close>\<close>

definition errorMessage :: "string \<Rightarrow> json" where
  "errorMessage e =
     JObj [(''role'', JStr ''agent''),
           (''parts'', JArr [JObj [(''type'', JStr ''text''), (''text'', JStr e)]])]"

text \<open>The \<^verbatim>\<open>catch\<close> block of the handler (lines 580 to 589).\<close>

definition messageSendFailed :: "server \<Rightarrow> RpcId option \<Rightarrow> string \<Rightarrow> Task \<Rightarrow> string \<Rightarrow> JsonRpcResponse \<times> server" where
  "messageSendFailed s rid taskId task e =
     (let (now, s1) = nowISO s;
          task' = task\<lparr>status := \<lparr>state = TASK_STATES_FAILED, message = Some (errorMessage e),
                                   timestamp = Some now\<rparr>\<rparr>
      in jsonRpcSuccess (storeTask taskId task' s1) rid (ResSendMessage task'))"

text \<open>
  The handler once the callback has settled (lines 556 to 589). A \<^verbatim>\<open>push\<close> on a history
  that is \<^verbatim>\<open>undefined\<close> would throw inside the \<^verbatim>\<open>try\<close> block, after the status has been
  assigned.
\<close>

definition messageSendSettle ::
  "server \<Rightarrow> RpcId option \<Rightarrow> string \<Rightarrow> Task \<Rightarrow> HandlerOutcome \<Rightarrow> JsonRpcResponse \<times> server"
where
  "messageSendSettle s rid taskId task out =
     (case out of
        Returns (ResultMessage m) \<Rightarrow>
          (let (now, s1) = nowISO s;
               task1 = task\<lparr>status := \<lparr>state = TASK_STATES_COMPLETED, message = Some m,
                                        timestamp = Some now\<rparr>\<rparr>
           in case history task1 of
                Some h \<Rightarrow>
                  (let task2 = task1\<lparr>history := Some (h @ [m])\<rparr>
                   in jsonRpcSuccess (storeTask taskId task2 s1) rid (ResSendMessage task2))
              | None \<Rightarrow>
                  messageSendFailed (storeTask taskId task1 s1) rid taskId task1
                    ''TypeError: Cannot read properties of undefined (reading 'push')'')
      | Returns ResultWorking \<Rightarrow> jsonRpcSuccess s rid (ResSendMessage task)
      | Returns (ResultTask t) \<Rightarrow> jsonRpcSuccess s rid (ResSendMessage t)
      | Throws e \<Rightarrow> messageSendFailed s rid taskId task e)"

text \<open>
  \<^verbatim>\<open>handleMessageSend\<close>: the part before the \<^verbatim>\<open>await\<close>, the call of the callback, and the
  part after it.
\<close>

definition handleMessageSend ::
  "MessageHandler \<Rightarrow> server \<Rightarrow> RpcId option \<Rightarrow> json option \<Rightarrow> JsonRpcResponse \<times> server"
where
  "handleMessageSend onMessage s rid params =
     (case messageSendAccept s rid params of
        Inl r \<Rightarrow> r
      | Inr ((s1, taskId, contextId', task), msg) \<Rightarrow>
          (let run = onMessage msg taskId contextId';
               (task', s2) = fold (applyEffect taskId) (effects run) (task, s1)
           in messageSendSettle s2 rid taskId task' (outcome run)))"

text \<open>
  The requests that pass the structural validation of \<^verbatim>\<open>message/send\<close>: the parameters are
  an object, \<open>message\<close> is an object, \<open>message.parts\<close> is a non-empty array, and
  \<open>message.role\<close> and \<open>message.messageId\<close> are present (truthy, in the source).
\<close>

definition validSendParams :: "json option \<Rightarrow> bool" where
  "validSendParams params =
     (case params of
        Some (JObj kvs) \<Rightarrow>
          (case map_of kvs ''message'' of
             Some (JObj mkvs) \<Rightarrow>
               (case map_of mkvs ''parts'' of
                  Some (JArr ps) \<Rightarrow>
                    ps \<noteq> [] \<and> truthy (map_of mkvs ''role'') \<and> truthy (map_of mkvs ''messageId'')
                | _ \<Rightarrow> False)
           | _ \<Rightarrow> False)
      | _ \<Rightarrow> False)"

subsection \<open>The router and the events of a run\<close>

text \<open>
  The \<^verbatim>\<open>switch\<close> of \<^verbatim>\<open>routeMethod\<close>, on the method name as \<^verbatim>\<open>normalizeMethodName\<close>
  gives it, with the parameters as the handler of the method types them.
\<close>

datatype Call =
    MessageSend "json option"
  | TasksGet "GetTaskRequest option"
  | TasksCancel "CancelTaskRequest option"
  | TasksList "json option"
  | AgentCard
  | OtherMethod string

definition routeMethod ::
  "MessageHandler \<Rightarrow> (string \<Rightarrow> int option) \<Rightarrow> server \<Rightarrow> RpcId option \<Rightarrow> Call \<Rightarrow> JsonRpcResponse \<times> server"
where
  "routeMethod onMessage parseDate s rid call =
     (case call of
        MessageSend params \<Rightarrow> handleMessageSend onMessage s rid params
      | TasksGet params \<Rightarrow> handleTasksGet s rid params
      | TasksCancel params \<Rightarrow> handleTasksCancel s rid params
      | TasksList params \<Rightarrow> handleTasksList parseDate s rid params
      | AgentCard \<Rightarrow> jsonRpcSuccess s rid ResAgentCard
      | OtherMethod m \<Rightarrow> jsonRpcError s rid METHOD_NOT_FOUND (''Method not found: '' @ m))"

text \<open>
  What changes the state of the server: a request that is routed and handled to its end
  (\<open>Request\<close>), and, since the server serves other requests while a callback is awaited
  and a context outlives its callback, the events of a \<^verbatim>\<open>message/send\<close> taken one by one:
  the handler runs up to the call of the callback (\<open>CallbackCalled\<close>), the callback or a
  timer of the hosting application calls the \<^verbatim>\<open>sendStatus\<close> or \<^verbatim>\<open>sendArtifact\<close> of a
  context (\<open>ContextSendStatus\<close>, \<open>ContextSendArtifact\<close>), the callback settles and the
  handler runs to its end (\<open>CallbackSettles\<close>). A context and a pending callback belong to
  a task of the map, given here by its key; there is none for a key that is not in the
  map.
\<close>

datatype Event =
    Request "RpcId option" Call
  | CallbackCalled "RpcId option" "json option"
  | ContextSendStatus string TaskStatus
  | ContextSendArtifact string json
  | CallbackSettles "RpcId option" string HandlerOutcome

fun step :: "MessageHandler \<Rightarrow> (string \<Rightarrow> int option) \<Rightarrow> Event \<Rightarrow> server \<Rightarrow> server" where
  "step onMessage parseDate (Request rid call) s = snd (routeMethod onMessage parseDate s rid call)"
| "step onMessage parseDate (CallbackCalled rid params) s =
     (case messageSendAccept s rid params of
        Inl r \<Rightarrow> snd r
      | Inr ((s1, taskId, contextId', task), msg) \<Rightarrow> s1)"
| "step onMessage parseDate (ContextSendStatus k st) s =
     (case tasks_get (tasks s) k of None \<Rightarrow> s | Some task \<Rightarrow> snd (sendStatus k st (task, s)))"
| "step onMessage parseDate (ContextSendArtifact k a) s =
     (case tasks_get (tasks s) k of None \<Rightarrow> s | Some task \<Rightarrow> snd (sendArtifact k a (task, s)))"
| "step onMessage parseDate (CallbackSettles rid k out) s =
     (case tasks_get (tasks s) k of
        None \<Rightarrow> s
      | Some task \<Rightarrow> snd (messageSendSettle s rid k task out))"

text \<open>The events in which the handler of \<^verbatim>\<open>message/send\<close> runs.\<close>

fun isMessageSend :: "Event \<Rightarrow> bool" where
  "isMessageSend (Request rid (MessageSend params)) = True"
| "isMessageSend (CallbackCalled rid params) = True"
| "isMessageSend (CallbackSettles rid k out) = True"
| "isMessageSend ev = False"

text \<open>The stored history of a task, a missing field counted as empty.\<close>

definition histOf :: "Task \<Rightarrow> json list" where
  "histOf t = (case history t of None \<Rightarrow> [] | Some h \<Rightarrow> h)"

subsection \<open>The JSON-RPC endpoint\<close>

record Validation =
  valid :: bool
  id_v :: "RpcId option"
  code_v :: int
  message_v :: string

text \<open>\<^verbatim>\<open>typeof v === 'string'\<close>\<close>

fun isString :: "json option \<Rightarrow> bool" where
  "isString (Some (JStr x)) = True"
| "isString v = False"

text \<open>
  The id of the envelope as the validation extracts it: \<open>Inr\<close> the id for a string or a
  number, \<open>Inr None\<close> for an id that is absent or \<^verbatim>\<open>null\<close>, \<open>Inl ()\<close> for an id of any
  other type.
\<close>

fun extractId :: "json option \<Rightarrow> unit + RpcId option" where
  "extractId (Some (JStr x)) = Inr (Some (IdStr x))"
| "extractId (Some (JNum n)) = Inr (Some (IdNum n))"
| "extractId None = Inr None"
| "extractId (Some JNull) = Inr None"
| "extractId v = Inl ()"

definition validateJsonRpcRequestDetailed :: "json \<Rightarrow> Validation" where
  "validateJsonRpcRequestDetailed req =
     (if \<not> truthy (Some req) \<or> \<not> isObjectType (Some req)
        then \<lparr>valid = False, id_v = None, code_v = INVALID_REQUEST, message_v = ''Invalid Request''\<rparr>
      else
        (case extractId (getProp (Some req) ''id'') of
           Inl u \<Rightarrow> \<lparr>valid = False, id_v = None, code_v = INVALID_REQUEST,
                      message_v = ''Invalid Request: id must be string or number''\<rparr>
         | Inr i \<Rightarrow>
             if \<not> strictEq (getProp (Some req) ''jsonrpc'') (Some (JStr ''2.0''))
               then \<lparr>valid = False, id_v = i, code_v = INVALID_REQUEST,
                     message_v = ''Invalid Request: jsonrpc must be '' @ [CHR 0x22] @ ''2.0'' @ [CHR 0x22]\<rparr>
             else if \<not> isString (getProp (Some req) ''method'')
               then \<lparr>valid = False, id_v = i, code_v = INVALID_REQUEST,
                     message_v = ''Invalid Request: method must be a string''\<rparr>
             else if getProp (Some req) ''params'' \<noteq> None \<and>
                     getProp (Some req) ''params'' \<noteq> Some JNull \<and>
                     \<not> isObjectType (getProp (Some req) ''params'')
               then \<lparr>valid = False, id_v = i, code_v = INVALID_PARAMS,
                     message_v = ''Invalid params: must be object or array''\<rparr>
             else \<lparr>valid = True, id_v = i, code_v = 0, message_v = []\<rparr>))"

text \<open>
  \<^verbatim>\<open>handleJsonRpc\<close> up to the call of \<^verbatim>\<open>routeMethod\<close>: it answers with an HTTP status and
  a JSON-RPC error, or hands the parsed request to the router. \<open>validateAuth\<close> is the
  configured validator; \<open>jsonParse\<close> is \<^verbatim>\<open>JSON.parse\<close>, \<open>None\<close> where it throws.
\<close>

datatype HttpOutcome = Respond nat JsonRpcResponse | Routed json

definition handleJsonRpc ::
  "(string option \<Rightarrow> bool) \<Rightarrow> (string \<Rightarrow> json option) \<Rightarrow> server \<Rightarrow> string option \<Rightarrow> string
     \<Rightarrow> HttpOutcome \<times> server"
where
  "handleJsonRpc validateAuth jsonParse s authorization body =
     (if \<not> validateAuth authorization
        then (let (r, s') = jsonRpcError s None INTERNAL_ERROR ''Unauthorized'' in (Respond 401 r, s'))
      else
        (case jsonParse body of
           None \<Rightarrow>
             (let (r, s') = jsonRpcError s None PARSE_ERROR ''Parse error'' in (Respond 200 r, s'))
         | Some parsed \<Rightarrow>
             (let validation = validateJsonRpcRequestDetailed parsed
              in if \<not> valid validation
                   then (let (r, s') = jsonRpcError s (id_v validation) (code_v validation)
                                         (message_v validation)
                         in (Respond 200 r, s'))
                 else (Routed parsed, s))))"

text \<open>An id that is neither a string, a number nor \<^verbatim>\<open>null\<close>.\<close>

fun invalidIdType :: "json \<Rightarrow> bool" where
  "invalidIdType (JStr x) = False"
| "invalidIdType (JNum n) = False"
| "invalidIdType JNull = False"
| "invalidIdType v = True"

section \<open>The relay client (RelayClient)\<close>

text \<open>
  The state of a WebSocket of the \<^verbatim>\<open>ws\<close> library as the client sees it: its
  \<^verbatim>\<open>readyState\<close> and the frames the client has sent on it.
\<close>

datatype ReadyState = CONNECTING | OPEN | CLOSING | CLOSED

record Socket =
  readyState :: ReadyState
  sent :: "json list"

text \<open>
  The promise \<^verbatim>\<open>doConnect\<close> returns. \<open>retries\<close> says that the promise is the one the
  reconnect timer made, whose \<^verbatim>\<open>catch\<close> schedules the next reconnect.
\<close>

datatype Settled = Pending | Resolved | Rejected string

record ConnectPromise =
  settled :: Settled
  retries :: bool

text \<open>
  The client: its fields, the part of its configuration that decides what it does, and the
  objects it has created: every call of \<^verbatim>\<open>doConnect\<close> makes one socket and one promise,
  which have the same index; \<open>ws\<close> is the index of the socket \<^verbatim>\<open>this.ws\<close> refers to.
  \<open>reconnectTimer\<close> says that \<^verbatim>\<open>this.reconnectTimer\<close> is not \<^verbatim>\<open>null\<close>: a timer is armed.
\<close>

record RelayClient =
  ws :: "nat option"
  reconnectTimer :: bool
  isConnected :: bool
  isStopping :: bool
  autoReconnect :: bool
  authFrame :: json
  sockets :: "Socket list"
  promises :: "ConnectPromise list"

text \<open>The constructor: \<^verbatim>\<open>autoReconnect\<close> is true unless the configuration says otherwise.\<close>

definition newRelayClient :: "bool option \<Rightarrow> json \<Rightarrow> RelayClient" where
  "newRelayClient autoReconnectConfig auth =
     \<lparr>ws = None, reconnectTimer = False, isConnected = False, isStopping = False,
      autoReconnect = (case autoReconnectConfig of None \<Rightarrow> True | Some b \<Rightarrow> b),
      authFrame = auth, sockets = [], promises = []\<rparr>"

text \<open>
  \<^verbatim>\<open>socket.send(frame)\<close> and \<^verbatim>\<open>socket.close()\<close> of the library. A frame is sent on an open
  socket only. \<^verbatim>\<open>close()\<close> starts the closing handshake of an open socket, or aborts one
  that is still connecting; the library emits the \<^verbatim>\<open>close\<close> event later.
\<close>

definition socketSend :: "nat \<Rightarrow> json \<Rightarrow> RelayClient \<Rightarrow> RelayClient" where
  "socketSend i frame c =
     (if i < length (sockets c) \<and> readyState (sockets c ! i) = OPEN
      then c\<lparr>sockets := (sockets c)[i := (sockets c ! i)\<lparr>sent := sent (sockets c ! i) @ [frame]\<rparr>]\<rparr>
      else c)"

definition socketClose :: "nat \<Rightarrow> RelayClient \<Rightarrow> RelayClient" where
  "socketClose i c =
     (if i < length (sockets c) \<and> readyState (sockets c ! i) \<in> {CONNECTING, OPEN}
      then c\<lparr>sockets := (sockets c)[i := (sockets c ! i)\<lparr>readyState := CLOSING\<rparr>]\<rparr>
      else c)"

definition scheduleReconnect :: "RelayClient \<Rightarrow> RelayClient" where
  "scheduleReconnect c = (if reconnectTimer c then c else c\<lparr>reconnectTimer := True\<rparr>)"

text \<open>\<^verbatim>\<open>resolve\<close> and \<^verbatim>\<open>reject\<close> of the promise with index \<open>i\<close>; a settled promise stays as
  it is. The \<^verbatim>\<open>catch\<close> of a promise the reconnect timer made runs when it is rejected.\<close>

definition resolvePromise :: "nat \<Rightarrow> RelayClient \<Rightarrow> RelayClient" where
  "resolvePromise i c =
     (if i < length (promises c) \<and> settled (promises c ! i) = Pending
      then c\<lparr>promises := (promises c)[i := (promises c ! i)\<lparr>settled := Resolved\<rparr>]\<rparr>
      else c)"

definition rejectPromise :: "nat \<Rightarrow> string \<Rightarrow> RelayClient \<Rightarrow> RelayClient" where
  "rejectPromise i err c =
     (if i < length (promises c) \<and> settled (promises c ! i) = Pending
      then (let c1 = c\<lparr>promises := (promises c)[i := (promises c ! i)\<lparr>settled := Rejected err\<rparr>]\<rparr>
            in if retries (promises c ! i) \<and> autoReconnect c1 \<and> \<not> isStopping c1
                 then scheduleReconnect c1 else c1)
      else c)"

text \<open>\<^verbatim>\<open>doConnect\<close>: a new socket, connecting, and the promise the caller gets.\<close>

definition doConnect :: "bool \<Rightarrow> RelayClient \<Rightarrow> RelayClient" where
  "doConnect fromTimer c =
     c\<lparr>ws := Some (length (sockets c)),
       sockets := sockets c @ [\<lparr>readyState = CONNECTING, sent = []\<rparr>],
       promises := promises c @ [\<lparr>settled = Pending, retries = fromTimer\<rparr>]\<rparr>"

definition connect :: "RelayClient \<Rightarrow> RelayClient" where
  "connect c = doConnect False (c\<lparr>isStopping := False\<rparr>)"

definition sendAuth :: "RelayClient \<Rightarrow> RelayClient" where
  "sendAuth c = (case ws c of None \<Rightarrow> c | Some i \<Rightarrow> socketSend i (authFrame c) c)"

definition sendResponse :: "json option \<Rightarrow> json option \<Rightarrow> json option \<Rightarrow> RelayClient \<Rightarrow> RelayClient" where
  "sendResponse relayRequestId res err c =
     (case ws c of
        None \<Rightarrow> c
      | Some i \<Rightarrow>
          socketSend i
            (JObj [(''type'', JStr ''a2a.response''),
                   (''payload'', JObj (optField ''id'' (\<lambda>x. x) relayRequestId @
                                      optField ''result'' (\<lambda>x. x) res @
                                      optField ''error'' (\<lambda>x. x) err))]) c)"

text \<open>
  \<open>onRequest\<close> is the configured handler of a request: \<open>Inr\<close> the \<open>result\<close> and the
  \<open>error\<close> of the response it resolves to, \<open>Inl\<close> the text of the error it throws.
  \<open>i\<close> is the socket the frame came on, whose promise \<^verbatim>\<open>onConnected\<close> resolves.
\<close>

definition handleMessage ::
  "(json option \<Rightarrow> string + json option \<times> json option) \<Rightarrow> json \<Rightarrow> nat \<Rightarrow> RelayClient \<Rightarrow> RelayClient"
where
  "handleMessage onRequest msg i c =
     (let ty = getProp (Some msg) ''type''; payload = getProp (Some msg) ''payload'' in
      if strictEq ty (Some (JStr ''auth_ok''))
        then resolvePromise i (c\<lparr>isConnected := True\<rparr>)
      else if strictEq ty (Some (JStr ''auth_error''))
        then (case ws c of None \<Rightarrow> c | Some j \<Rightarrow> socketClose j c)
      else if strictEq ty (Some (JStr ''a2a.request'')) \<and> truthy payload
        then (let requestId = getProp payload ''id'';
                  jsonRpcRequest = getProp payload ''params''
              in if jsonRpcRequest = None \<or> jsonRpcRequest = Some JNull then c
                 else (case onRequest jsonRpcRequest of
                         Inr (res, err) \<Rightarrow> sendResponse requestId res err c
                       | Inl e \<Rightarrow>
                           sendResponse requestId None
                             (Some (JObj [(''code'', JNum (- 32603)), (''message'', JStr e)])) c))
      else if strictEq ty (Some (JStr ''ping''))
        then (case ws c of None \<Rightarrow> c | Some j \<Rightarrow> socketSend j (JObj [(''type'', JStr ''pong'')]) c)
      else c)"

text \<open>\<^verbatim>\<open>disconnect\<close>\<close>

definition disconnect :: "RelayClient \<Rightarrow> RelayClient" where
  "disconnect c =
     (let c1 = c\<lparr>isStopping := True\<rparr>;
          c2 = (if reconnectTimer c1 then c1\<lparr>reconnectTimer := False\<rparr> else c1);
          c3 = (case ws c2 of None \<Rightarrow> c2 | Some i \<Rightarrow> (socketClose i c2)\<lparr>ws := None\<rparr>)
      in c3\<lparr>isConnected := False\<rparr>)"

text \<open>
  What happens to the client: the calls of its methods, the events the library emits on
  the socket with index \<open>i\<close> (the socket is open before \<^verbatim>\<open>open\<close> is emitted and closed
  before \<^verbatim>\<open>close\<close> is), and the reconnect timer firing.
\<close>

datatype RelayEvent =
    CallConnect
  | CallDisconnect
  | OnOpen nat
  | OnMessage nat string
  | OnClose nat
  | OnError nat string
  | TimerFires

definition setReadyState :: "nat \<Rightarrow> ReadyState \<Rightarrow> RelayClient \<Rightarrow> RelayClient" where
  "setReadyState i r c =
     (if i < length (sockets c)
      then c\<lparr>sockets := (sockets c)[i := (sockets c ! i)\<lparr>readyState := r\<rparr>]\<rparr> else c)"

fun relayStep ::
  "(string \<Rightarrow> json option) \<Rightarrow> (json option \<Rightarrow> string + json option \<times> json option)
     \<Rightarrow> RelayEvent \<Rightarrow> RelayClient \<Rightarrow> RelayClient"
where
  "relayStep jsonParse onRequest CallConnect c = connect c"
| "relayStep jsonParse onRequest CallDisconnect c = disconnect c"
| "relayStep jsonParse onRequest (OnOpen i) c = sendAuth (setReadyState i OPEN c)"
| "relayStep jsonParse onRequest (OnMessage i data') c =
     (case jsonParse data' of None \<Rightarrow> c | Some msg \<Rightarrow> handleMessage onRequest msg i c)"
| "relayStep jsonParse onRequest (OnClose i) c =
     (let c1 = (setReadyState i CLOSED c)\<lparr>isConnected := False, ws := None\<rparr>
      in if \<not> isStopping c1 \<and> autoReconnect c1 then scheduleReconnect c1 else c1)"
| "relayStep jsonParse onRequest (OnError i err) c =
     (if \<not> isConnected c then rejectPromise i err c else c)"
| "relayStep jsonParse onRequest TimerFires c =
     (if reconnectTimer c then doConnect True (c\<lparr>reconnectTimer := False\<rparr>) else c)"

section \<open>The objects behind a read\<close>

text \<open>
  The handlers above pass tasks by value. In the source a task is an object and its
  history an array, both with an identity, and \<^verbatim>\<open>tasks/get\<close> and \<^verbatim>\<open>tasks/list\<close> build the
  task they answer with from the stored object. To see what they share with it and what
  they write, the objects are put in a heap: a task object holds references to its
  \<open>history\<close> and \<open>artifacts\<close> arrays, and a reference is a number below \<open>nextRef\<close>.
\<close>

record TaskObj =
  id_o :: string
  contextId_o :: "json option"
  status_o :: TaskStatus
  artifacts_o :: "nat option"
  history_o :: "nat option"
  metadata_o :: "json option"

record Heap =
  objects :: "nat \<rightharpoonup> TaskObj"
  arrays :: "nat \<rightharpoonup> json list"
  nextRef :: nat

definition newObject :: "TaskObj \<Rightarrow> Heap \<Rightarrow> nat \<times> Heap" where
  "newObject obj h = (nextRef h, h\<lparr>objects := (objects h)(nextRef h \<mapsto> obj), nextRef := Suc (nextRef h)\<rparr>)"

definition newArray :: "json list \<Rightarrow> Heap \<Rightarrow> nat \<times> Heap" where
  "newArray xs h = (nextRef h, h\<lparr>arrays := (arrays h)(nextRef h \<mapsto> xs), nextRef := Suc (nextRef h)\<rparr>)"

text \<open>An assignment to a field of the object at \<open>a\<close>.\<close>

definition updateObject :: "nat \<Rightarrow> (TaskObj \<Rightarrow> TaskObj) \<Rightarrow> Heap \<Rightarrow> Heap" where
  "updateObject a f h =
     (case objects h a of None \<Rightarrow> h | Some obj \<Rightarrow> h\<lparr>objects := (objects h)(a \<mapsto> f obj)\<rparr>)"

text \<open>The task an object stands for, as \<^verbatim>\<open>JSON.stringify\<close> writes it.\<close>

definition taskOf :: "Heap \<Rightarrow> nat \<Rightarrow> Task option" where
  "taskOf h a =
     (case objects h a of
        None \<Rightarrow> None
      | Some obj \<Rightarrow>
          Some \<lparr>id_t = id_o obj, contextId = contextId_o obj, status = status_o obj,
                artifacts = (case artifacts_o obj of None \<Rightarrow> None | Some r \<Rightarrow> arrays h r),
                history = (case history_o obj of None \<Rightarrow> None | Some r \<Rightarrow> arrays h r),
                metadata = metadata_o obj\<rparr>)"

text \<open>
  Lines 607 to 616 of \<^verbatim>\<open>handleTasksGet\<close>: \<open>task\<close> is the reference the map holds, the
  result the reference of \<open>responseTask\<close>. \<^verbatim>\<open>{ ...task }\<close> is a new object with the fields
  of \<open>task\<close>, \<^verbatim>\<open>delete\<close> removes a field of it, \<^verbatim>\<open>slice\<close> makes a new array.
\<close>

definition responseTaskOf :: "int option \<Rightarrow> nat \<Rightarrow> Heap \<Rightarrow> nat \<times> Heap" where
  "responseTaskOf historyLength' task h =
     (case historyLength' of
        None \<Rightarrow> (task, h)
      | Some n \<Rightarrow>
          if n \<ge> 0 then
            (case objects h task of
               None \<Rightarrow> (task, h)
             | Some obj \<Rightarrow>
                 (let (responseTask, h1) = newObject obj h
                  in if n = 0
                       then (responseTask, updateObject responseTask (\<lambda>x. x\<lparr>history_o := None\<rparr>) h1)
                     else (case history_o obj of
                             None \<Rightarrow> (responseTask, h1)
                           | Some r \<Rightarrow>
                               (case arrays h1 r of
                                  None \<Rightarrow> (responseTask, h1)
                                | Some xs \<Rightarrow>
                                    (let (r', h2) = newArray (slice1 (- n) xs) h1
                                     in (responseTask,
                                         updateObject responseTask (\<lambda>x. x\<lparr>history_o := Some r'\<rparr>) h2))))))
          else (task, h))"

text \<open>
  Lines 733 to 758 of \<^verbatim>\<open>handleTasksList\<close>, the callback of \<^verbatim>\<open>map\<close>: \<open>t\<close> is the reference
  of a stored task, the result the reference of the new object \<open>task\<close>.
\<close>

definition pageTaskOf :: "int option \<Rightarrow> bool \<Rightarrow> nat \<Rightarrow> Heap \<Rightarrow> nat \<times> Heap" where
  "pageTaskOf historyLength' includeArtifacts t h =
     (case objects h t of
        None \<Rightarrow> (t, h)
      | Some obj \<Rightarrow>
          (let (task, h1) =
                 newObject \<lparr>id_o = id_o obj, contextId_o = contextId_o obj, status_o = status_o obj,
                            artifacts_o = None, history_o = None, metadata_o = metadata_o obj\<rparr> h;
               h2 = (if historyLength' = Some 0 then h1
                     else if historyLength' \<noteq> None \<and> history_o obj \<noteq> None then
                       (case arrays h1 (the (history_o obj)) of
                          None \<Rightarrow> h1
                        | Some xs \<Rightarrow>
                            (let (r', h') = newArray (slice1 (- the historyLength') xs) h1
                             in updateObject task (\<lambda>x. x\<lparr>history_o := Some r'\<rparr>) h'))
                     else if history_o obj \<noteq> None
                       then updateObject task (\<lambda>x. x\<lparr>history_o := history_o obj\<rparr>) h1
                     else h1);
               h3 = (if includeArtifacts \<and> artifacts_o obj \<noteq> None
                       then updateObject task (\<lambda>x. x\<lparr>artifacts_o := artifacts_o obj\<rparr>) h2
                     else h2)
           in (task, h3)))"

text \<open>
  A reference to a stored task: the object and the arrays it refers to exist, and all of
  them were made before \<open>nextRef\<close>.
\<close>

definition storedTask :: "Heap \<Rightarrow> nat \<Rightarrow> bool" where
  "storedTask h a =
     (a < nextRef h \<and>
      (case objects h a of
         None \<Rightarrow> False
       | Some obj \<Rightarrow>
           (case history_o obj of None \<Rightarrow> True | Some r \<Rightarrow> r < nextRef h \<and> arrays h r \<noteq> None) \<and>
           (case artifacts_o obj of None \<Rightarrow> True | Some r \<Rightarrow> r < nextRef h \<and> arrays h r \<noteq> None)))"

text \<open>Nothing that was in the heap \<open>h\<close> has changed in \<open>h'\<close>.\<close>

definition unchangedHeap :: "Heap \<Rightarrow> Heap \<Rightarrow> bool" where
  "unchangedHeap h h' =
     (nextRef h \<le> nextRef h' \<and>
      (\<forall>x < nextRef h. objects h' x = objects h x \<and> arrays h' x = arrays h x))"

section \<open>Example data\<close>

definition ex_clock :: "nat \<Rightarrow> int" where
  "ex_clock k = 1700000000000 + int k"

definition ex_uuids :: "nat \<Rightarrow> string" where
  "ex_uuids k = replicate (Suc k) CHR ''u''"

definition ex_msg :: "string \<Rightarrow> json" where
  "ex_msg m = JObj [(''messageId'', JStr m), (''role'', JStr ''user''),
                    (''parts'', JArr [JObj [(''text'', JStr ''Hello'')]])]"

definition ex_task :: Task where
  "ex_task = \<lparr>id_t = ''t1'', contextId = Some (JStr ''c1''),
              status = \<lparr>state = ''TASK_STATE_WORKING'', message = Some (ex_msg ''s0''),
                        timestamp = Some 1600000000000\<rparr>,
              artifacts = Some [JObj [(''name'', JStr ''a1'')]],
              history = Some [ex_msg ''m1'', ex_msg ''m2'', ex_msg ''m3''],
              metadata = Some (JObj [(''k'', JNum 1)])\<rparr>"

definition ex_server :: server where
  "ex_server = \<lparr>tasks = [(''t1'', ex_task)], clock = ex_clock, clockReads = 0,
                uuids = ex_uuids, uuidReads = 0\<rparr>"

definition ex_parseDate :: "string \<Rightarrow> int option" where
  "ex_parseDate x = (if x = ''2020-01-01'' then Some 1577836800000 else None)"

definition ex_taskAt :: "string \<Rightarrow> string \<Rightarrow> int \<Rightarrow> Task" where
  "ex_taskAt k c ms = \<lparr>id_t = k, contextId = Some (JStr c),
              status = \<lparr>state = ''TASK_STATE_WORKING'', message = None, timestamp = Some ms\<rparr>,
              artifacts = Some [JObj [(''name'', JStr ''a1'')]],
              history = Some [ex_msg ''m1'', ex_msg ''m2'', ex_msg ''m3''],
              metadata = None\<rparr>"

definition ex_server3 :: server where
  "ex_server3 = \<lparr>tasks = [(''a'', ex_taskAt ''a'' ''c1'' 1600000000000),
                          (''b'', ex_taskAt ''b'' ''c1'' 1650000000000),
                          (''c'', ex_taskAt ''c'' ''c2'' 1600000000000),
                          (''d'', ex_taskAt ''d'' ''c1'' 1600000000000)],
                 clock = ex_clock, clockReads = 0, uuids = ex_uuids, uuidReads = 0\<rparr>"

definition ex_query :: ListTasksRequest where
  "ex_query = \<lparr>contextId_q = Some ''c1'', status_q = None, pageSize_q = Some 2,
               pageToken_q = None, historyLength_q = None, statusTimestampAfter_q = None,
               includeArtifacts_q = None\<rparr>"


definition ex_sendTo :: "string \<Rightarrow> json option" where
  "ex_sendTo k = Some (JObj [(''message'',
      JObj [(''messageId'', JStr ''m9''), (''role'', JStr ''user''),
            (''parts'', JArr [JObj [(''text'', JStr ''Hello'')]]), (''taskId'', JStr k)])])"


definition ex_echo :: MessageHandler where
  "ex_echo m k c = \<lparr>effects = [], outcome = Returns (ResultMessage (JObj [(''role'', JStr ''agent'')]))\<rparr>"

definition ex_empty :: server where
  "ex_empty = \<lparr>tasks = [], clock = ex_clock, clockReads = 0, uuids = ex_uuids, uuidReads = 0\<rparr>"



definition ex_completed :: TaskStatus where
  "ex_completed = \<lparr>state = ''TASK_STATE_COMPLETED'',
                   message = Some (JObj [(''role'', JStr ''agent'')]), timestamp = None\<rparr>"

definition ex_auth :: "string option \<Rightarrow> bool" where
  "ex_auth authorization = True"

definition ex_parse :: "string \<Rightarrow> json option" where
  "ex_parse body =
     (if body = ''{id:{}}'' then Some (JObj [(''jsonrpc'', JStr ''2.0''), (''id'', JObj []),
                                             (''method'', JStr ''tasks/get'')])
      else if body = ''{id:null}'' then Some (JObj [(''jsonrpc'', JStr ''2.0''), (''id'', JNull),
                                                    (''method'', JStr ''tasks/get'')])
      else None)"

definition ex_frames :: "string \<Rightarrow> json option" where
  "ex_frames data' =
     (if data' = ''auth_error'' then Some (JObj [(''type'', JStr ''auth_error''),
                                                 (''error'', JStr ''bad token'')])
      else if data' = ''auth_ok'' then Some (JObj [(''type'', JStr ''auth_ok'')])
      else None)"

definition ex_onRequest :: "json option \<Rightarrow> string + json option \<times> json option" where
  "ex_onRequest req = Inr (Some (JObj []), None)"

definition ex_client :: RelayClient where
  "ex_client = newRelayClient None (JObj [(''type'', JStr ''auth'')])"

definition ex_connecting :: RelayClient where
  "ex_connecting = fold (relayStep ex_frames ex_onRequest) [CallConnect, OnOpen 0] ex_client"

definition ex_afterAuthError :: RelayClient where
  "ex_afterAuthError = relayStep ex_frames ex_onRequest (OnMessage 0 ''auth_error'') ex_connecting"

definition ex_afterClose :: RelayClient where
  "ex_afterClose = relayStep ex_frames ex_onRequest (OnClose 0) ex_afterAuthError"

definition ex_heap :: Heap where
  "ex_heap = \<lparr>objects = [0 \<mapsto> \<lparr>id_o = ''t1'', contextId_o = Some (JStr ''c1''),
                                  status_o = status ex_task, artifacts_o = Some 1,
                                  history_o = Some 2, metadata_o = metadata ex_task\<rparr>],
              arrays = [1 \<mapsto> [JObj [(''name'', JStr ''a1'')]],
                        2 \<mapsto> [ex_msg ''m1'', ex_msg ''m2'', ex_msg ''m3'']],
              nextRef = 3\<rparr>"

section \<open>Properties\<close>

lemma map_of_tasks_set: "map_of (tasks_set k t m) = (map_of m)(k \<mapsto> t)"
  by (induction m) (auto simp: fun_eq_iff)

lemma tasks_get_tasks_set: "tasks_get (tasks_set k t m) k' = (if k' = k then Some t else tasks_get m k')"
  by (simp add: tasks_get_def map_of_tasks_set)

lemma result_jsonRpcSuccess: "result (fst (jsonRpcSuccess s rid r)) = Some r"
  by (simp add: jsonRpcSuccess_def randomUUID_def split: option.splits)

lemma error_jsonRpcSuccess: "error (fst (jsonRpcSuccess s rid r)) = None"
  by (simp add: jsonRpcSuccess_def randomUUID_def split: option.splits)

lemma tasks_jsonRpcSuccess: "tasks (snd (jsonRpcSuccess s rid r)) = tasks s"
  by (simp add: jsonRpcSuccess_def randomUUID_def split: option.splits)

lemma slice1_neg: "0 < n \<Longrightarrow> slice1 (- n) h = drop (length h - min (nat n) (length h)) h"
  by (auto simp: slice1_def relIndex_def max_def min_def intro!: arg_cong[where f="\<lambda>k. drop k h"])

text \<open>
  Claim C7. For a task that is in the store, \<^verbatim>\<open>tasks/get\<close> with \<open>historyLength = 0\<close>
  answers with the task without its \<open>history\<close> field; with \<open>historyLength = n > 0\<close> it
  answers with the last \<open>min n (length h)\<close> entries of the stored history \<open>h\<close>, in their
  stored order; with no \<open>historyLength\<close> it answers with the stored task, whole history
  included.
\<close>

theorem tasks_get_historyLength:
  assumes "tasks_get (tasks s) k = Some t" and "k \<noteq> []"
  shows "(let r = fst (handleTasksGet s rid (Some \<lparr>id_g = k, historyLength = Some 0\<rparr>))
          in error r = None \<and> result r = Some (ResTask (t\<lparr>history := None\<rparr>)))
       \<and> (\<forall>n h. 0 < n \<and> history t = Some h \<longrightarrow>
            (let r = fst (handleTasksGet s rid (Some \<lparr>id_g = k, historyLength = Some n\<rparr>));
                 m = min (nat n) (length h)
             in error r = None \<and>
                result r = Some (ResTask (t\<lparr>history := Some (drop (length h - m) h)\<rparr>)) \<and>
                length (drop (length h - m) h) = m))
       \<and> (let r = fst (handleTasksGet s rid (Some \<lparr>id_g = k, historyLength = None\<rparr>))
          in error r = None \<and> result r = Some (ResTask t))"
  using assms
  by (simp add: handleTasksGet_def slice1_neg result_jsonRpcSuccess error_jsonRpcSuccess Let_def)

theorem tasks_get_historyLength_witness:
  "tasks_get (tasks ex_server) ''t1'' = Some ex_task \<and> ''t1'' \<noteq> [] \<and>
   (0::int) < 2 \<and> history ex_task = Some [ex_msg ''m1'', ex_msg ''m2'', ex_msg ''m3''] \<and>
   result (fst (handleTasksGet ex_server (Some (IdNum 7)) (Some \<lparr>id_g = ''t1'', historyLength = Some 2\<rparr>)))
     = Some (ResTask (ex_task\<lparr>history := Some [ex_msg ''m2'', ex_msg ''m3'']\<rparr>)) \<and>
   result (fst (handleTasksGet ex_server (Some (IdNum 7)) (Some \<lparr>id_g = ''t1'', historyLength = Some 0\<rparr>)))
     = Some (ResTask (ex_task\<lparr>history := None\<rparr>))"
proof -
  have a: "tasks_get (tasks ex_server) ''t1'' = Some ex_task"
    by (simp add: tasks_get_def ex_server_def)
  have b: "''t1'' \<noteq> []" by simp
  have h: "history ex_task = Some [ex_msg ''m1'', ex_msg ''m2'', ex_msg ''m3'']"
    by (simp add: ex_task_def)
  show ?thesis
    using tasks_get_historyLength [OF a b, of "Some (IdNum 7)"] a h
    by (simp add: Let_def)
qed

text \<open>
  Claim C10. \<^verbatim>\<open>tasks/cancel\<close> on a task that is not in a terminal state replaces the
  whole status by one that has the state CANCELED, the clock's reading as timestamp and no
  message (a message the status had is dropped); the id, contextId, history, artifacts and
  metadata of the task stay as they were.
\<close>

theorem tasks_cancel_status:
  assumes "tasks_get (tasks s) k = Some t" and "k \<noteq> []"
    and "state (status t) \<notin> set TERMINAL_STATES"
  shows "(let (r, s') = handleTasksCancel s rid (Some \<lparr>id_c = k\<rparr>);
              t' = t\<lparr>status := \<lparr>state = ''TASK_STATE_CANCELED'', message = None,
                                 timestamp = Some (clock s (clockReads s))\<rparr>\<rparr>
          in error r = None \<and> result r = Some (ResTask t') \<and>
             tasks_get (tasks s') k = Some t' \<and>
             id_t t' = id_t t \<and> contextId t' = contextId t \<and> history t' = history t \<and>
             artifacts t' = artifacts t \<and> metadata t' = metadata t \<and>
             message (status t') = None)"
  using assms
  by (simp add: handleTasksCancel_def nowISO_def Let_def split_def TASK_STATES_CANCELED_def
      result_jsonRpcSuccess error_jsonRpcSuccess tasks_jsonRpcSuccess tasks_get_tasks_set)

theorem tasks_cancel_status_witness:
  "tasks_get (tasks ex_server) ''t1'' = Some ex_task \<and> ''t1'' \<noteq> [] \<and>
   state (status ex_task) \<notin> set TERMINAL_STATES \<and> message (status ex_task) \<noteq> None \<and>
   tasks_get (tasks (snd (handleTasksCancel ex_server (Some (IdNum 7)) (Some \<lparr>id_c = ''t1''\<rparr>)))) ''t1''
     = Some (ex_task\<lparr>status := \<lparr>state = ''TASK_STATE_CANCELED'', message = None,
                                 timestamp = Some 1700000000000\<rparr>\<rparr>)"
proof -
  have a: "tasks_get (tasks ex_server) ''t1'' = Some ex_task"
    by (simp add: tasks_get_def ex_server_def)
  have b: "''t1'' \<noteq> []" by simp
  have c: "state (status ex_task) \<notin> set TERMINAL_STATES"
    by (simp add: ex_task_def TERMINAL_STATES_def)
  have d: "message (status ex_task) \<noteq> None" by (simp add: ex_task_def)
  have e: "clock ex_server (clockReads ex_server) = 1700000000000"
    by (simp add: ex_server_def ex_clock_def)
  show ?thesis
    using tasks_cancel_status [OF a b c, of "Some (IdNum 7)"] a c d e
    by (simp add: Let_def split_def)
qed

lemma isDigit_digitChar: "d < 10 \<Longrightarrow> isDigit (digitChar d)"
  by (simp add: isDigit_def digitChar_def)

lemma val_digitChar: "d < 10 \<Longrightarrow> (of_char (digitChar d) :: nat) - 48 = d"
  by (simp add: digitChar_def)

lemma digits_all: "list_all isDigit (digits n)"
  by (induction n rule: digits.induct) (subst digits.simps, simp add: isDigit_digitChar)

lemma digits_ne: "digits n \<noteq> []"
  by (subst digits.simps) simp

lemma digitsValue_snoc: "digitsValue (ds @ [c]) = digitsValue ds * 10 + ((of_char c :: nat) - 48)"
  by (simp add: digitsValue_def)

lemma digitsValue_digits: "digitsValue (digits n) = n"
proof (induction n rule: digits.induct)
  case (1 n)
  show ?case
  proof (cases "n < 10")
    case True
    then show ?thesis by (subst digits.simps) (simp add: digitsValue_def val_digitChar)
  next
    case False
    with 1 show ?thesis
      by (subst digits.simps) (simp add: digitsValue_snoc val_digitChar)
  qed
qed

lemma digit_not_white: "isDigit c \<Longrightarrow> \<not> isWhiteSpace c"
  by (auto simp: isDigit_def isWhiteSpace_def)

lemma digit_not_sign: "isDigit c \<Longrightarrow> c \<noteq> CHR ''-'' \<and> c \<noteq> CHR ''+''"
  by (auto simp: isDigit_def)

lemma parseInt_digits: "parseInt (digits n) = Some (int n)"
proof -
  obtain c cs where d: "digits n = c # cs" using digits_ne [of n] by (cases "digits n") auto
  have all: "list_all isDigit (digits n)" by (rule digits_all)
  then have c: "isDigit c" by (simp add: d)
  have tw: "takeWhile isDigit (digits n) = digits n"
    using all by (simp add: list_all_iff takeWhile_eq_all_conv)
  have dw: "dropWhile isWhiteSpace (digits n) = digits n"
    using digit_not_white [OF c] by (simp add: d)
  have sg: "(case digits n of
               c # cs \<Rightarrow> if c = CHR ''-'' then (True, cs)
                         else if c = CHR ''+'' then (False, cs) else (False, digits n)
             | [] \<Rightarrow> (False, digits n)) = (False, digits n)"
    using digit_not_sign [OF c] by (simp add: d)
  show ?thesis
    unfolding parseInt_def Let_def dw sg
    by (simp add: tw digits_ne digitsValue_digits)
qed

lemma parseInt_String_int: "0 \<le> n \<Longrightarrow> parseInt (String_int n) = Some n"
  by (simp add: String_int_def parseInt_digits)

lemma String_int_ne: "String_int n \<noteq> []"
  by (simp add: String_int_def digits_ne)

subsection \<open>Sorting\<close>

lemma insertBy_insort_key:
  "insertBy (\<lambda>a b. f b - f a) x ys = insort_key (\<lambda>t. - f t) x (ys :: 'a list)"
  for f :: "'a \<Rightarrow> int"
  by (induction ys) auto

lemma sortBy_sort_key: "sortBy (\<lambda>a b. f b - f a) xs = sort_key (\<lambda>t. - f t) xs"
  for f :: "'a \<Rightarrow> int"
  by (simp add: sortBy_def sort_key_def insertBy_insort_key [abs_def])

lemma mset_sortBy: "mset (sortBy (\<lambda>a b. f b - f a) xs) = mset xs"
  for f :: "'a \<Rightarrow> int"
  by (simp add: sortBy_sort_key)

lemma sorted_sortBy: "sorted_wrt (\<lambda>a b. f a \<ge> f b) (sortBy (\<lambda>a b. f b - f a) xs)"
  for f :: "'a \<Rightarrow> int"
proof -
  have "sorted (map (\<lambda>t. - f t) (sort_key (\<lambda>t. - f t) xs))" by (rule sorted_sort_key)
  then show ?thesis
    by (simp add: sortBy_sort_key sorted_wrt_map)
qed

lemma stable_sortBy:
  "filter (\<lambda>t. f t = k) (sortBy (\<lambda>a b. f b - f a) xs) = filter (\<lambda>t. f t = k) xs"
  for f :: "'a \<Rightarrow> int"
  using sort_key_stable [of "\<lambda>t. - f t" "- k" xs] by (simp add: sortBy_sort_key)

subsection \<open>Slices\<close>

lemma slice2_take_drop:
  assumes "0 \<le> a" and "0 \<le> n"
  shows "slice2 a (a + n) xs = take (nat n) (drop (nat a) xs)"
proof (cases "nat a \<le> length xs")
  case True
  have e: "min (nat (a + n)) (length xs) - nat a = min (nat n) (length xs - nat a)"
    using assms True by (simp add: nat_add_distrib) linarith
  have "take (min (nat n) (length xs - nat a)) (drop (nat a) xs) = take (nat n) (drop (nat a) xs)"
    by (simp add: min_def)
  then show ?thesis
    using assms True e by (simp add: slice2_def relIndex_def Let_def min_absorb1)
next
  case False
  then show ?thesis
    using assms by (simp add: slice2_def relIndex_def Let_def min_def)
qed

subsection \<open>The parameters of a typed request\<close>

lemma map_of_optField_append:
  "map_of (optField k enc v @ rest) k' =
     (if k' = k then (case v of None \<Rightarrow> map_of rest k' | Some x \<Rightarrow> Some (enc x)) else map_of rest k')"
  by (simp add: optField_def split: option.splits)

lemma map_of_optField:
  "map_of (optField k enc v) k' = (if k' = k then map_option enc v else None)"
  by (simp add: optField_def split: option.splits)

lemma getProp_listParams:
  "getProp (Some (listParams q)) ''contextId'' = map_option JStr (contextId_q q)"
  "getProp (Some (listParams q)) ''status'' = map_option JStr (status_q q)"
  "getProp (Some (listParams q)) ''pageSize'' = map_option JNum (pageSize_q q)"
  "getProp (Some (listParams q)) ''pageToken'' = map_option JStr (pageToken_q q)"
  "getProp (Some (listParams q)) ''historyLength'' = map_option JNum (historyLength_q q)"
  "getProp (Some (listParams q)) ''statusTimestampAfter'' = map_option JStr (statusTimestampAfter_q q)"
  "getProp (Some (listParams q)) ''includeArtifacts'' = map_option JBool (includeArtifacts_q q)"
  by (simp_all add: listParams_def map_of_optField_append map_of_optField del: map_of_append
        split: option.splits)

lemma truthy_listParams: "truthy (Some (listParams q))"
  by (simp add: listParams_def)

lemma strictEq_JStr: "strictEq v (Some (JStr c)) = (v = Some (JStr c))"
  by (cases "(v, Some (JStr c))" rule: strictEq.cases) auto

lemma listed_filters:
  assumes "validListRequest pd q"
  shows
   "(case (case statusTimestampAfter_q q of None \<Rightarrow> None | Some x \<Rightarrow> pd x) of
       None \<Rightarrow>
         (if status_q q \<noteq> None \<and> the (status_q q) \<noteq> []
          then filter (\<lambda>t. state (status t) = the (status_q q))
                 (if contextId_q q \<noteq> None \<and> the (contextId_q q) \<noteq> []
                  then filter (\<lambda>t. strictEq (contextId t) (Some (JStr (the (contextId_q q))))) xs
                  else xs)
          else (if contextId_q q \<noteq> None \<and> the (contextId_q q) \<noteq> []
                  then filter (\<lambda>t. strictEq (contextId t) (Some (JStr (the (contextId_q q))))) xs
                  else xs))
     | Some f \<Rightarrow>
         filter (\<lambda>t. case timestamp (status t) of None \<Rightarrow> False | Some ms \<Rightarrow> ms \<ge> f)
           (if status_q q \<noteq> None \<and> the (status_q q) \<noteq> []
            then filter (\<lambda>t. state (status t) = the (status_q q))
                 (if contextId_q q \<noteq> None \<and> the (contextId_q q) \<noteq> []
                  then filter (\<lambda>t. strictEq (contextId t) (Some (JStr (the (contextId_q q))))) xs
                  else xs)
            else (if contextId_q q \<noteq> None \<and> the (contextId_q q) \<noteq> []
                  then filter (\<lambda>t. strictEq (contextId t) (Some (JStr (the (contextId_q q))))) xs
                  else xs)))
    = filter (matchesFilter pd q) xs"
proof -
  have st: "\<And>x. status_q q = Some x \<Longrightarrow> x \<noteq> []"
    using assms by (auto simp: validListRequest_def VALID_TASK_STATES_def)
  have ts: "\<And>a. statusTimestampAfter_q q = Some a \<Longrightarrow> pd a \<noteq> None"
    using assms by (auto simp: validListRequest_def)
  show ?thesis
    by (cases "contextId_q q"; cases "status_q q"; cases "statusTimestampAfter_q q")
       (auto simp: matchesFilter_def strictEq_JStr dest: st ts
         intro!: filter_cong split: option.splits)
qed

lemma extract_params:
  "(case map_option JNum vi of Some (JNum n) \<Rightarrow> n | _ \<Rightarrow> 50) = (case vi of None \<Rightarrow> 50 | Some n \<Rightarrow> n)"
  "(case map_option JStr vs of Some (JStr x) \<Rightarrow> Some x | _ \<Rightarrow> None) = vs"
  "(case map_option JNum vi of Some (JNum n) \<Rightarrow> Some n | _ \<Rightarrow> None) = vi"
  "(map_option JBool vb = Some (JBool True)) = (vb = Some True)"
  by (cases vi; cases vs; cases vb; simp)+

lemma handleTasksList_page:
  assumes v: "validListRequest pd q" and t: "tokenOffset (pageToken_q q) = Some start"
  shows "handleTasksList pd s rid (Some (listParams q)) =
    (let L = sortBy (\<lambda>a b. taskTime b - taskTime a) (filter (matchesFilter pd q) (map snd (tasks s)));
         page = take (nat (pageSizeOf q)) (drop (nat start) L)
     in jsonRpcSuccess s rid
       (ResList \<lparr>tasks_l = map (pageTask (historyLength_q q) (includeArtifacts_q q = Some True)) page,
                  nextPageToken = (if start + pageSizeOf q < int (length L)
                                   then String_int (start + pageSizeOf q) else []),
                  pageSize_l = length page, totalSize = length L\<rparr>))"
proof -
  have ps: "1 \<le> pageSizeOf q" "pageSizeOf q \<le> 100"
    using v by (auto simp: validListRequest_def pageSizeOf_def split: option.splits)
  have hl: "\<not> (historyLength_q q \<noteq> None \<and> the (historyLength_q q) < 0)"
    using v by (auto simp: validListRequest_def split: option.splits)
  have st: "\<not> (status_q q \<noteq> None \<and> the (status_q q) \<notin> set VALID_TASK_STATES)"
    using v by (auto simp: validListRequest_def split: option.splits)
  have ts1: "\<not> (statusTimestampAfter_q q \<noteq> None \<and> \<not> looksLikeDate (the (statusTimestampAfter_q q)))"
    using v by (auto simp: validListRequest_def split: option.splits)
  have ts2: "\<not> (statusTimestampAfter_q q \<noteq> None \<and> pd (the (statusTimestampAfter_q q)) = None)"
    using v by (auto simp: validListRequest_def split: option.splits)
  have s0: "0 \<le> start"
    using t by (auto simp: tokenOffset_def split: option.splits if_splits)
  have tk: "\<not> (pageToken_q q \<noteq> None \<and> the (pageToken_q q) \<noteq> [] \<and>
       ((case pageToken_q q of None \<Rightarrow> None | Some x \<Rightarrow> parseInt x) = None \<or>
        the (case pageToken_q q of None \<Rightarrow> None | Some x \<Rightarrow> parseInt x) < 0))"
    using t by (auto simp: tokenOffset_def split: option.splits if_splits)
  have si: "(if pageToken_q q \<noteq> None \<and> the (pageToken_q q) \<noteq> []
             then the (case pageToken_q q of None \<Rightarrow> None | Some x \<Rightarrow> parseInt x) else 0) = start"
    using t by (auto simp: tokenOffset_def split: option.splits if_splits)
  have sl: "\<And>xs :: Task list. slice2 start (start + pageSizeOf q) xs = take (nat (pageSizeOf q)) (drop (nat start) xs)"
    using slice2_take_drop [OF s0, of "pageSizeOf q"] ps by simp
  show ?thesis
    unfolding handleTasksList_def Let_def
    apply (simp only: truthy_listParams getProp_listParams extract_params if_True)
    apply (simp only: pageSizeOf_def [symmetric] listed_filters [OF v] si sl hl st ts1 ts2 tk if_False)
    using ps apply simp
    done
qed

subsection \<open>Following the page tokens\<close>

lemma tokenOffset_String_int: "0 \<le> n \<Longrightarrow> tokenOffset (Some (String_int n)) = Some n"
  by (simp add: tokenOffset_def String_int_ne parseInt_String_int)

lemma validListRequest_pageToken [simp]:
  "validListRequest pd (q\<lparr>pageToken_q := x\<rparr>) = validListRequest pd q"
  by (simp add: validListRequest_def)

lemma matchesFilter_pageToken [simp]:
  "matchesFilter pd (q\<lparr>pageToken_q := x\<rparr>) = matchesFilter pd q"
  by (simp add: matchesFilter_def fun_eq_iff)

lemma pageSizeOf_pageToken [simp]: "pageSizeOf (q\<lparr>pageToken_q := x\<rparr>) = pageSizeOf q"
  by (simp add: pageSizeOf_def)

lemma followPages_from:
  assumes v: "validListRequest pd q"
    and L: "L = sortBy (\<lambda>a b. taskTime b - taskTime a) (filter (matchesFilter pd q) (map snd ts))"
  shows "tokenOffset (pageToken_q q) = Some start \<Longrightarrow> length L - nat start < fuel \<Longrightarrow>
         tasks s = ts \<Longrightarrow>
         followPages fuel pd s rid q
           = Some (map (pageTask (historyLength_q q) (includeArtifacts_q q = Some True))
                    (drop (nat start) L))"
  using v L
proof (induction fuel arbitrary: q start s)
  case 0
  then show ?case by simp
next
  case (Suc fuel)
  let ?P = "pageTask (historyLength_q q) (includeArtifacts_q q = Some True)"
  let ?n = "pageSizeOf q"
  have ps: "1 \<le> ?n"
    using Suc.prems(4) by (auto simp: validListRequest_def pageSizeOf_def split: option.splits)
  have s0: "0 \<le> start"
    using Suc.prems(1) by (auto simp: tokenOffset_def split: option.splits if_splits)
  have L': "L = sortBy (\<lambda>a b. taskTime b - taskTime a) (filter (matchesFilter pd q) (map snd (tasks s)))"
    using Suc.prems by simp
  note page = handleTasksList_page [OF Suc.prems(4) Suc.prems(1), of s rid, folded L']
  show ?case
  proof (cases "start + ?n < int (length L)")
    case False
    then have "take (nat ?n) (drop (nat start) L) = drop (nat start) L"
      using s0 ps by simp
    with False show ?thesis
      by (simp add: page Let_def split_def result_jsonRpcSuccess)
  next
    case True
    let ?q' = "q\<lparr>pageToken_q := Some (String_int (start + ?n))\<rparr>"
    let ?s' = "snd (jsonRpcSuccess s rid (ResList \<lparr>tasks_l = map ?P (take (nat ?n) (drop (nat start) L)),
                nextPageToken = String_int (start + ?n),
                pageSize_l = length (take (nat ?n) (drop (nat start) L)), totalSize = length L\<rparr>))"
    have off: "tokenOffset (pageToken_q ?q') = Some (start + ?n)"
      using s0 ps by (simp add: tokenOffset_String_int)
    have fuel: "length L - nat (start + ?n) < fuel"
      using Suc.prems(2) s0 ps True by linarith
    have ts': "tasks ?s' = ts"
      using Suc.prems(3) by (simp add: tasks_jsonRpcSuccess)
    have v': "validListRequest pd ?q'" using Suc.prems(4) by simp
    have L2: "L = sortBy (\<lambda>a b. taskTime b - taskTime a) (filter (matchesFilter pd ?q') (map snd ts))"
      using Suc.prems(5) by simp
    have rec: "followPages fuel pd ?s' rid ?q' = Some (map ?P (drop (nat (start + ?n)) L))"
      using Suc.IH [OF off fuel ts' v' L2] by simp
    have cat: "take (nat ?n) (drop (nat start) L) @ drop (nat (start + ?n)) L = drop (nat start) L"
    proof -
      have "nat (start + ?n) = nat ?n + nat start" using s0 ps by (simp add: nat_add_distrib)
      then have "drop (nat (start + ?n)) L = drop (nat ?n) (drop (nat start) L)"
        by (simp add: drop_drop)
      then show ?thesis by (simp only: append_take_drop_id)
    qed
    have cat': "map ?P (take (nat ?n) (drop (nat start) L)) @ map ?P (drop (nat (start + ?n)) L)
                  = map ?P (drop (nat start) L)"
      using cat by (metis map_append)
    show ?thesis
      using True rec cat'
      by (simp add: page Let_def split_def result_jsonRpcSuccess String_int_ne)
  qed
qed

subsection \<open>The tasks of a page\<close>

lemma pageTask_fields:
  "id_t (pageTask hl inc t) = id_t t"
  "contextId (pageTask hl inc t) = contextId t"
  "status (pageTask hl inc t) = status t"
  "metadata (pageTask hl inc t) = metadata t"
  "artifacts (pageTask hl inc t) = (if inc then artifacts t else None)"
  by (auto simp: pageTask_def Let_def)

lemma pageTask_history:
  "history (pageTask hl inc t) =
     (case hl of
        None \<Rightarrow> history t
      | Some n \<Rightarrow> if n = 0 then None else map_option (slice1 (- n)) (history t))"
  by (cases hl; cases "history t") (auto simp: pageTask_def Let_def)

lemma taskTime_pageTask: "taskTime (pageTask hl inc t) = taskTime t"
  by (simp add: taskTime_def pageTask_fields)

lemma sorted_wrt_take_drop: "sorted_wrt R xs \<Longrightarrow> sorted_wrt R (take n (drop m xs))"
  by (simp add: sorted_wrt_drop sorted_wrt_take)

lemma distinct_ids_listed:
  assumes "distinct (map (id_t \<circ> snd) ts)"
    and "mset L = mset (filter P (map snd ts))"
  shows "distinct (map id_t L)"
proof -
  have "distinct (map id_t (filter P (map snd ts)))"
    using assms(1) by (simp add: distinct_map_filter flip: map_map)
  moreover have "mset (map id_t L) = mset (map id_t (filter P (map snd ts)))"
    using assms(2) by (metis mset_map)
  ultimately show ?thesis by (metis mset_eq_imp_distinct_iff)
qed

text \<open>
  Claim C3. For every store and every request that passes the validation (page size in
  [1,100], 50 when absent), there is one list \<open>L\<close> that holds exactly the tasks of the
  store that pass the filters, each as often as the store holds it, sorted by status
  timestamp descending, tasks of equal timestamp in the order of the store (insertion
  order). The page at offset \<open>start\<close> is the slice of \<open>L\<close> from \<open>start\<close> of at most
  \<open>pageSize\<close> tasks, so it is sorted the same way; \<open>totalSize\<close> is the length of \<open>L\<close>;
  \<open>nextPageToken\<close> is empty exactly when \<open>start + pageSize\<close> reaches \<open>totalSize\<close>, and
  stands for the offset \<open>start + pageSize\<close> otherwise. A client that starts without a
  token and follows \<open>nextPageToken\<close> until it is empty has read \<open>L\<close> from its first task to
  its last, every task once; the ids read are those of \<open>L\<close> in order, and they are
  distinct when the ids of the store are.
\<close>

theorem tasks_list_sorted_paged:
  assumes v: "validListRequest pd q"
  shows "\<exists>L.
      mset L = mset (filter (matchesFilter pd q) (map snd (tasks s)))
    \<and> sorted_wrt (\<lambda>a b. taskTime a \<ge> taskTime b) L
    \<and> (\<forall>ms. filter (\<lambda>t. taskTime t = ms) L
             = filter (\<lambda>t. taskTime t = ms) (filter (matchesFilter pd q) (map snd (tasks s))))
    \<and> (\<forall>start. tokenOffset (pageToken_q q) = Some start \<longrightarrow>
          (\<exists>page. result (fst (handleTasksList pd s rid (Some (listParams q)))) = Some (ResList page)
             \<and> error (fst (handleTasksList pd s rid (Some (listParams q)))) = None
             \<and> tasks (snd (handleTasksList pd s rid (Some (listParams q)))) = tasks s
             \<and> map id_t (tasks_l page) = map id_t (take (nat (pageSizeOf q)) (drop (nat start) L))
             \<and> map status (tasks_l page) = map status (take (nat (pageSizeOf q)) (drop (nat start) L))
             \<and> sorted_wrt (\<lambda>a b. taskTime a \<ge> taskTime b) (tasks_l page)
             \<and> totalSize page = length L
             \<and> pageSize_l page = length (tasks_l page)
             \<and> (nextPageToken page = [] \<longleftrightarrow> int (totalSize page) \<le> start + pageSizeOf q)
             \<and> (nextPageToken page \<noteq> [] \<longrightarrow>
                  tokenOffset (Some (nextPageToken page)) = Some (start + pageSizeOf q))))
    \<and> (pageToken_q q = None \<longrightarrow>
         (\<forall>fuel. length L < fuel \<longrightarrow>
            (\<exists>all. followPages fuel pd s rid q = Some all \<and> map id_t all = map id_t L
                    \<and> map status all = map status L)))
    \<and> (distinct (map (id_t \<circ> snd) (tasks s)) \<longrightarrow> distinct (map id_t L))"
proof -
  define L where "L = sortBy (\<lambda>a b. taskTime b - taskTime a)
                        (filter (matchesFilter pd q) (map snd (tasks s)))"
  let ?P = "pageTask (historyLength_q q) (includeArtifacts_q q = Some True)"
  have ps: "1 \<le> pageSizeOf q"
    using v by (auto simp: validListRequest_def pageSizeOf_def split: option.splits)
  have m: "mset L = mset (filter (matchesFilter pd q) (map snd (tasks s)))"
    by (simp add: L_def mset_sortBy)
  have srt: "sorted_wrt (\<lambda>a b. taskTime a \<ge> taskTime b) L"
    unfolding L_def by (rule sorted_sortBy)
  have stb: "\<forall>ms. filter (\<lambda>t. taskTime t = ms) L
             = filter (\<lambda>t. taskTime t = ms) (filter (matchesFilter pd q) (map snd (tasks s)))"
    unfolding L_def by (simp add: stable_sortBy)
  have ids: "\<And>xs. map id_t (map ?P xs) = map id_t xs"
    by (simp add: pageTask_fields)
  have sts: "\<And>xs. map status (map ?P xs) = map status xs"
    by (simp add: pageTask_fields)
  have srtP: "\<And>xs. sorted_wrt (\<lambda>a b. taskTime a \<ge> taskTime b) xs \<Longrightarrow>
                   sorted_wrt (\<lambda>a b. taskTime a \<ge> taskTime b) (map ?P xs)"
    by (simp add: sorted_wrt_map taskTime_pageTask)
  have page: "\<forall>start. tokenOffset (pageToken_q q) = Some start \<longrightarrow>
          (\<exists>page. result (fst (handleTasksList pd s rid (Some (listParams q)))) = Some (ResList page)
             \<and> error (fst (handleTasksList pd s rid (Some (listParams q)))) = None
             \<and> tasks (snd (handleTasksList pd s rid (Some (listParams q)))) = tasks s
             \<and> map id_t (tasks_l page) = map id_t (take (nat (pageSizeOf q)) (drop (nat start) L))
             \<and> map status (tasks_l page) = map status (take (nat (pageSizeOf q)) (drop (nat start) L))
             \<and> sorted_wrt (\<lambda>a b. taskTime a \<ge> taskTime b) (tasks_l page)
             \<and> totalSize page = length L
             \<and> pageSize_l page = length (tasks_l page)
             \<and> (nextPageToken page = [] \<longleftrightarrow> int (totalSize page) \<le> start + pageSizeOf q)
             \<and> (nextPageToken page \<noteq> [] \<longrightarrow>
                  tokenOffset (Some (nextPageToken page)) = Some (start + pageSizeOf q)))"
  proof (intro allI impI)
    fix start
    assume t: "tokenOffset (pageToken_q q) = Some start"
    have s0: "0 \<le> start"
      using t by (auto simp: tokenOffset_def split: option.splits if_splits)
    note h = handleTasksList_page [OF v t, of s rid, folded L_def]
    show "\<exists>page. result (fst (handleTasksList pd s rid (Some (listParams q)))) = Some (ResList page)
             \<and> error (fst (handleTasksList pd s rid (Some (listParams q)))) = None
             \<and> tasks (snd (handleTasksList pd s rid (Some (listParams q)))) = tasks s
             \<and> map id_t (tasks_l page) = map id_t (take (nat (pageSizeOf q)) (drop (nat start) L))
             \<and> map status (tasks_l page) = map status (take (nat (pageSizeOf q)) (drop (nat start) L))
             \<and> sorted_wrt (\<lambda>a b. taskTime a \<ge> taskTime b) (tasks_l page)
             \<and> totalSize page = length L
             \<and> pageSize_l page = length (tasks_l page)
             \<and> (nextPageToken page = [] \<longleftrightarrow> int (totalSize page) \<le> start + pageSizeOf q)
             \<and> (nextPageToken page \<noteq> [] \<longrightarrow>
                  tokenOffset (Some (nextPageToken page)) = Some (start + pageSizeOf q))"
      using s0 ps srtP [OF sorted_wrt_take_drop [OF srt, of "nat (pageSizeOf q)" "nat start"]]
      by (simp add: h Let_def result_jsonRpcSuccess error_jsonRpcSuccess tasks_jsonRpcSuccess
          pageTask_fields String_int_ne tokenOffset_String_int)
  qed
  have follow: "pageToken_q q = None \<longrightarrow>
         (\<forall>fuel. length L < fuel \<longrightarrow>
            (\<exists>all. followPages fuel pd s rid q = Some all \<and> map id_t all = map id_t L
                    \<and> map status all = map status L))"
  proof (intro allI impI)
    fix fuel
    assume n: "pageToken_q q = None" and f: "length L < fuel"
    have "followPages fuel pd s rid q = Some (map ?P (drop (nat 0) L))"
      by (rule followPages_from [OF v L_def]) (use n f in \<open>simp_all add: tokenOffset_def\<close>)
    then show "\<exists>all. followPages fuel pd s rid q = Some all \<and> map id_t all = map id_t L
                    \<and> map status all = map status L"
      by (simp add: pageTask_fields)
  qed
  have dist: "distinct (map (id_t \<circ> snd) (tasks s)) \<longrightarrow> distinct (map id_t L)"
    using distinct_ids_listed [OF _ m] by blast
  show ?thesis
    by (rule exI [of _ L]) (intro conjI m srt stb page follow dist)
qed

theorem tasks_list_sorted_paged_witness:
  "validListRequest ex_parseDate ex_query \<and> pageToken_q ex_query = None \<and>
   distinct (map (id_t \<circ> snd) (tasks ex_server3)) \<and>
   map_option (map id_t) (followPages 4 ex_parseDate ex_server3 (Some (IdNum 1)) ex_query)
     = Some [''b'', ''a'', ''d''] \<and>
   (\<exists>all. followPages 4 ex_parseDate ex_server3 (Some (IdNum 1)) ex_query = Some all \<and>
          length all = 3 \<and> distinct (map id_t all))"
proof -
  have v: "validListRequest ex_parseDate ex_query" by code_simp
  have n: "pageToken_q ex_query = None" by code_simp
  have d: "distinct (map (id_t \<circ> snd) (tasks ex_server3))" by code_simp
  have e: "map_option (map id_t) (followPages 4 ex_parseDate ex_server3 (Some (IdNum 1)) ex_query)
     = Some [''b'', ''a'', ''d'']" by code_simp
  have len: "length (filter (matchesFilter ex_parseDate ex_query) (map snd (tasks ex_server3))) = 3"
    by code_simp
  from tasks_list_sorted_paged [OF v, of ex_server3 "Some (IdNum 1)"]
  obtain L where m: "mset L = mset (filter (matchesFilter ex_parseDate ex_query) (map snd (tasks ex_server3)))"
    and f: "pageToken_q ex_query = None \<longrightarrow>
         (\<forall>fuel. length L < fuel \<longrightarrow>
            (\<exists>all. followPages fuel ex_parseDate ex_server3 (Some (IdNum 1)) ex_query = Some all
                    \<and> map id_t all = map id_t L \<and> map status all = map status L))"
    and di: "distinct (map (id_t \<circ> snd) (tasks ex_server3)) \<longrightarrow> distinct (map id_t L)"
    by (elim exE conjE) (rule that, assumption+)
  have l3: "length L = 3" using m len by (metis size_mset)
  then obtain all where a: "followPages 4 ex_parseDate ex_server3 (Some (IdNum 1)) ex_query = Some all"
    and ids: "map id_t all = map id_t L"
    using f n by force
  have "length all = 3" using ids l3 by (metis length_map)
  moreover have "distinct (map id_t all)" using di d ids by simp
  ultimately show ?thesis using v n d e a by blast
qed

text \<open>
  Claim C8. Every task of a page of \<^verbatim>\<open>tasks/list\<close> is a task of the store with its id,
  contextId, status and metadata, and with: its artifacts when \<open>includeArtifacts\<close> is true
  and no artifacts field otherwise; no history field when \<open>historyLength\<close> is 0, the last
  \<open>min n (length h)\<close> entries of its stored history \<open>h\<close> when \<open>historyLength\<close> is
  \<open>n > 0\<close>, and its whole stored history when \<open>historyLength\<close> is absent.
\<close>

theorem tasks_list_projection:
  assumes v: "validListRequest pd q" and t: "tokenOffset (pageToken_q q) = Some start"
  shows "\<exists>page src.
      result (fst (handleTasksList pd s rid (Some (listParams q)))) = Some (ResList page)
    \<and> set src \<subseteq> snd ` set (tasks s)
    \<and> list_all2
        (\<lambda>t' t. id_t t' = id_t t \<and> contextId t' = contextId t \<and> status t' = status t
           \<and> metadata t' = metadata t
           \<and> artifacts t' = (if includeArtifacts_q q = Some True then artifacts t else None)
           \<and> history t' =
               (case historyLength_q q of
                  None \<Rightarrow> history t
                | Some n \<Rightarrow>
                    if n = 0 then None
                    else (case history t of
                            None \<Rightarrow> None
                          | Some h \<Rightarrow> Some (drop (length h - min (nat n) (length h)) h))))
        (tasks_l page) src"
proof -
  define L where "L = sortBy (\<lambda>a b. taskTime b - taskTime a)
                        (filter (matchesFilter pd q) (map snd (tasks s)))"
  let ?P = "pageTask (historyLength_q q) (includeArtifacts_q q = Some True)"
  let ?src = "take (nat (pageSizeOf q)) (drop (nat start) L)"
  let ?R = "\<lambda>t' t. id_t t' = id_t t \<and> contextId t' = contextId t \<and> status t' = status t
           \<and> metadata t' = metadata t
           \<and> artifacts t' = (if includeArtifacts_q q = Some True then artifacts t else None)
           \<and> history t' =
               (case historyLength_q q of
                  None \<Rightarrow> history t
                | Some n \<Rightarrow>
                    if n = 0 then None
                    else (case history t of
                            None \<Rightarrow> None
                          | Some h \<Rightarrow> Some (drop (length h - min (nat n) (length h)) h)))"
  have hl: "\<And>n. historyLength_q q = Some n \<Longrightarrow> 0 \<le> n"
    using v by (auto simp: validListRequest_def split: option.splits)
  have "set L = set (filter (matchesFilter pd q) (map snd (tasks s)))"
    by (metis L_def mset_sortBy set_mset_mset)
  then have sub: "set ?src \<subseteq> snd ` set (tasks s)"
    using set_take_subset [of "nat (pageSizeOf q)" "drop (nat start) L"] set_drop_subset [of "nat start" L]
    by auto
  have R: "?R (?P t) t" for t
    by (cases "historyLength_q q"; cases "history t")
       (auto simp: pageTask_fields pageTask_history slice1_neg dest: hl)
  have all2: "list_all2 ?R (map ?P ?src) ?src"
    unfolding list_all2_map1 by (rule list.rel_refl_strong) (rule R)
  have res: "result (fst (handleTasksList pd s rid (Some (listParams q))))
      = Some (ResList \<lparr>tasks_l = map ?P ?src,
                  nextPageToken = (if start + pageSizeOf q < int (length L)
                                   then String_int (start + pageSizeOf q) else []),
                  pageSize_l = length ?src, totalSize = length L\<rparr>)"
    by (simp add: handleTasksList_page [OF v t, of s rid, folded L_def] Let_def result_jsonRpcSuccess)
  show ?thesis
    apply (rule exI [of _ "\<lparr>tasks_l = map ?P ?src,
                  nextPageToken = (if start + pageSizeOf q < int (length L)
                                   then String_int (start + pageSizeOf q) else []),
                  pageSize_l = length ?src, totalSize = length L\<rparr>"])
    apply (rule exI [of _ ?src])
    using res sub all2 by simp
qed

theorem tasks_list_projection_witness:
  "validListRequest ex_parseDate (ex_query\<lparr>historyLength_q := Some 2\<rparr>) \<and>
   tokenOffset (pageToken_q (ex_query\<lparr>historyLength_q := Some 2\<rparr>)) = Some 0 \<and>
   (case result (fst (handleTasksList ex_parseDate ex_server3 (Some (IdNum 1))
                  (Some (listParams (ex_query\<lparr>historyLength_q := Some 2\<rparr>))))) of
      Some (ResList page) \<Rightarrow>
        map history (tasks_l page) = [Some [ex_msg ''m2'', ex_msg ''m3''], Some [ex_msg ''m2'', ex_msg ''m3'']]
        \<and> map artifacts (tasks_l page) = [None, None]
    | _ \<Rightarrow> False) \<and>
   (\<exists>page. result (fst (handleTasksList ex_parseDate ex_server3 (Some (IdNum 1))
                  (Some (listParams (ex_query\<lparr>historyLength_q := Some 2\<rparr>))))) = Some (ResList page)
      \<and> list_all (\<lambda>t'. artifacts t' = None) (tasks_l page))"
proof -
  let ?q = "ex_query\<lparr>historyLength_q := Some 2\<rparr>"
  have v: "validListRequest ex_parseDate ?q" by code_simp
  have t: "tokenOffset (pageToken_q ?q) = Some 0" by code_simp
  have i: "includeArtifacts_q ?q \<noteq> Some True" by code_simp
  have e: "(case result (fst (handleTasksList ex_parseDate ex_server3 (Some (IdNum 1))
                  (Some (listParams ?q)))) of
      Some (ResList page) \<Rightarrow>
        map history (tasks_l page) = [Some [ex_msg ''m2'', ex_msg ''m3''], Some [ex_msg ''m2'', ex_msg ''m3'']]
        \<and> map artifacts (tasks_l page) = [None, None]
    | _ \<Rightarrow> False)" by code_simp
  from tasks_list_projection [OF v t, of ex_server3 "Some (IdNum 1)"] i
  have "\<exists>page. result (fst (handleTasksList ex_parseDate ex_server3 (Some (IdNum 1))
                  (Some (listParams ?q)))) = Some (ResList page)
      \<and> list_all (\<lambda>t'. artifacts t' = None) (tasks_l page)"
    by (auto simp: list_all_iff list_all2_conv_all_nth in_set_conv_nth)
  with v t e show ?thesis by blast
qed

subsection \<open>message/send\<close>

lemma tasks_jsonRpcError: "tasks (snd (jsonRpcError s rid c m)) = tasks s"
  by (simp add: jsonRpcError_def randomUUID_def Let_def split: option.splits)



lemma tasks_get_storeTask:
  "tasks_get (tasks (storeTask k t s)) k' = (if k' = k then Some t else tasks_get (tasks s) k')"
  by (simp add: storeTask_def tasks_get_tasks_set)

lemma validSendParams_cases:
  assumes "validSendParams params"
  obtains kvs mkvs ps where "params = Some (JObj kvs)"
    and "map_of kvs ''message'' = Some (JObj mkvs)"
    and "map_of mkvs ''parts'' = Some (JArr ps)" and "ps \<noteq> []"
    and "truthy (map_of mkvs ''role'')" and "truthy (map_of mkvs ''messageId'')"
proof -
  obtain p where p: "params = Some p"
    using assms by (cases params) (simp_all add: validSendParams_def)
  obtain kvs where kvs: "p = JObj kvs"
    using assms p by (cases p) (simp_all add: validSendParams_def)
  obtain m where m: "map_of kvs ''message'' = Some m"
    using assms p kvs by (cases "map_of kvs ''message''") (simp_all add: validSendParams_def)
  obtain mkvs where mkvs: "m = JObj mkvs"
    using assms p kvs m by (cases m) (simp_all add: validSendParams_def)
  obtain q where q: "map_of mkvs ''parts'' = Some q"
    using assms p kvs m mkvs by (cases "map_of mkvs ''parts''") (simp_all add: validSendParams_def)
  obtain ps where ps: "q = JArr ps"
    using assms p kvs m mkvs q by (cases q) (simp_all add: validSendParams_def)
  have r: "ps \<noteq> []" "truthy (map_of mkvs ''role'')" "truthy (map_of mkvs ''messageId'')"
    using assms p kvs m mkvs q ps by (simp_all add: validSendParams_def)
  have 1: "params = Some (JObj kvs)" using p kvs by simp
  have 2: "map_of kvs ''message'' = Some (JObj mkvs)" using m mkvs by simp
  have 3: "map_of mkvs ''parts'' = Some (JArr ps)" using q ps by simp
  show thesis by (rule that [OF 1 2 3 r])
qed

lemma validSendParams_checks:
  assumes "validSendParams params"
  shows "truthy params" "isObjectType params" "truthy (getProp params ''message'')"
    "isObjectType (getProp params ''message'')"
    "truthy (getProp (getProp params ''message'') ''parts'')"
    "isArray (getProp (getProp params ''message'') ''parts'')"
    "arrayLength (getProp (getProp params ''message'') ''parts'') \<noteq> 0"
    "truthy (getProp (getProp params ''message'') ''role'')"
    "truthy (getProp (getProp params ''message'') ''messageId'')"
    "getProp params ''message'' \<noteq> None"
  by (rule validSendParams_cases [OF assms], simp)+

lemma messageSendAccept_new:
  assumes "validSendParams params"
    and "\<not> truthy (getProp (getProp params ''message'') ''taskId'')"
  shows "messageSendAccept s rid params =
     Inr (startTask s (the (getProp params ''message''))
            (getProp (getProp params ''message'') ''contextId'') None,
          the (getProp params ''message''))"
  using assms(2) validSendParams_checks [OF assms(1)]
  by (simp add: messageSendAccept_def Let_def)


lemma startTask_new:
  "startTask s m c None =
     (let taskId = uuids s (uuidReads s);
          ctx = (if truthy c then c else Some (JStr (uuids s (Suc (uuidReads s)))));
          task = \<lparr>id_t = taskId, contextId = ctx,
                  status = \<lparr>state = ''TASK_STATE_WORKING'', message = None,
                            timestamp = Some (clock s (Suc (clockReads s)))\<rparr>,
                  artifacts = Some [], history = Some [m], metadata = None\<rparr>
      in (s\<lparr>tasks := tasks_set taskId task (tasks s),
            clockReads := Suc (Suc (clockReads s)),
            uuidReads := (if truthy c then Suc (uuidReads s) else Suc (Suc (uuidReads s)))\<rparr>,
          taskId, ctx, task))"
  by (simp add: startTask_def randomUUID_def nowISO_def storeTask_def Let_def
      TASK_STATES_WORKING_def)

lemma startTask_existing:
  "startTask s m c (Some (k, t)) =
     (let ctx = (if truthy c then c else if truthy (contextId t) then contextId t
                 else Some (JStr (uuids s (uuidReads s))));
          task = t\<lparr>status := \<lparr>state = ''TASK_STATE_WORKING'', message = None,
                                timestamp = Some (clock s (clockReads s))\<rparr>,
                   history := Some ((case history t of None \<Rightarrow> [] | Some h \<Rightarrow> h) @ [m])\<rparr>
      in (s\<lparr>tasks := tasks_set k task (tasks s),
            clockReads := Suc (clockReads s),
            uuidReads := (if truthy c \<or> truthy (contextId t) then uuidReads s
                          else Suc (uuidReads s))\<rparr>,
          k, ctx, task))"
  by (simp add: startTask_def randomUUID_def nowISO_def storeTask_def Let_def
      TASK_STATES_WORKING_def)

lemma tasks_storeTask_other:
  "k' \<noteq> k \<Longrightarrow> tasks_get (tasks (storeTask k t s)) k' = tasks_get (tasks s) k'"
  by (simp add: tasks_get_storeTask)

lemma sendStatus_eq:
  "sendStatus k st (task, s) =
     (task\<lparr>status := st\<lparr>timestamp := Some (clock s (clockReads s))\<rparr>\<rparr>,
      storeTask k (task\<lparr>status := st\<lparr>timestamp := Some (clock s (clockReads s))\<rparr>\<rparr>)
        (s\<lparr>clockReads := Suc (clockReads s)\<rparr>))"
  by (simp add: sendStatus_def nowISO_def Let_def)

lemma sendArtifact_eq:
  "sendArtifact k a (task, s) =
     (task\<lparr>artifacts := Some ((case artifacts task of None \<Rightarrow> [] | Some as \<Rightarrow> as) @ [a])\<rparr>,
      storeTask k (task\<lparr>artifacts := Some ((case artifacts task of None \<Rightarrow> [] | Some as \<Rightarrow> as) @ [a])\<rparr>) s)"
  by (simp add: sendArtifact_def Let_def)

lemma applyEffect_inv:
  assumes "applyEffect k eff (task, s) = (task', s')"
  shows "tasks_get (tasks s') k = Some task'" and "history task' = history task"
    and "id_t task' = id_t task" and "contextId task' = contextId task"
    and "metadata task' = metadata task"
    and "\<And>k'. k' \<noteq> k \<Longrightarrow> tasks_get (tasks s') k' = tasks_get (tasks s) k'"
    and "uuids s' = uuids s" and "uuidReads s' = uuidReads s"
proof -
  have "tasks_get (tasks s') k = Some task' \<and> history task' = history task
      \<and> id_t task' = id_t task \<and> contextId task' = contextId task
      \<and> metadata task' = metadata task
      \<and> (\<forall>k'. k' \<noteq> k \<longrightarrow> tasks_get (tasks s') k' = tasks_get (tasks s) k')
      \<and> uuids s' = uuids s \<and> uuidReads s' = uuidReads s"
  proof (cases eff)
    case (SendStatus st)
    with assms have "task' = task\<lparr>status := st\<lparr>timestamp := Some (clock s (clockReads s))\<rparr>\<rparr>"
      and "s' = storeTask k task' (s\<lparr>clockReads := Suc (clockReads s)\<rparr>)"
      by (auto simp: sendStatus_eq)
    then show ?thesis
      by (simp add: tasks_get_storeTask) (simp add: storeTask_def)
  next
    case (SendArtifact a)
    with assms have "task' = task\<lparr>artifacts := Some ((case artifacts task of None \<Rightarrow> [] | Some as \<Rightarrow> as) @ [a])\<rparr>"
      and "s' = storeTask k task' s"
      by (auto simp: sendArtifact_eq)
    then show ?thesis
      by (simp add: tasks_get_storeTask) (simp add: storeTask_def)
  qed
  then show "tasks_get (tasks s') k = Some task'" and "history task' = history task"
    and "id_t task' = id_t task" and "contextId task' = contextId task"
    and "metadata task' = metadata task"
    and "\<And>k'. k' \<noteq> k \<Longrightarrow> tasks_get (tasks s') k' = tasks_get (tasks s) k'"
    and "uuids s' = uuids s" and "uuidReads s' = uuidReads s"
    by simp_all
qed

lemma fold_applyEffect_inv:
  assumes "fold (applyEffect k) effs (task, s) = (task', s')"
    and "tasks_get (tasks s) k = Some task"
  shows "tasks_get (tasks s') k = Some task' \<and> history task' = history task
       \<and> id_t task' = id_t task \<and> contextId task' = contextId task
       \<and> metadata task' = metadata task
       \<and> (\<forall>k'. k' \<noteq> k \<longrightarrow> tasks_get (tasks s') k' = tasks_get (tasks s) k')
       \<and> uuids s' = uuids s \<and> uuidReads s' = uuidReads s"
  using assms
proof (induction effs arbitrary: task s)
  case Nil
  then show ?case by simp
next
  case (Cons eff effs)
  obtain t1 s1 where e: "applyEffect k eff (task, s) = (t1, s1)"
    by (cases "applyEffect k eff (task, s)")
  note inv = applyEffect_inv [OF e]
  from Cons.prems(1) have f: "fold (applyEffect k) effs (t1, s1) = (task', s')"
    by (simp add: e)
  from Cons.IH [OF f inv(1)] inv show ?case by simp
qed

lemma messageSendFailed_result:
  "messageSendFailed s rid k task e =
     jsonRpcSuccess
       (storeTask k (task\<lparr>status := \<lparr>state = ''TASK_STATE_FAILED'', message = Some (errorMessage e),
                                    timestamp = Some (clock s (clockReads s))\<rparr>\<rparr>)
          (s\<lparr>clockReads := Suc (clockReads s)\<rparr>))
       rid
       (ResSendMessage (task\<lparr>status := \<lparr>state = ''TASK_STATE_FAILED'',
                                       message = Some (errorMessage e),
                                       timestamp = Some (clock s (clockReads s))\<rparr>\<rparr>))"
  by (simp add: messageSendFailed_def nowISO_def Let_def TASK_STATES_FAILED_def)






subsection \<open>What a request leaves as it was\<close>

lemma validSendParams_intro:
  assumes "truthy params" "isObjectType params" "truthy (getProp params ''message'')"
    "isObjectType (getProp params ''message'')"
    "truthy (getProp (getProp params ''message'') ''parts'')"
    "isArray (getProp (getProp params ''message'') ''parts'')"
    "arrayLength (getProp (getProp params ''message'') ''parts'') \<noteq> 0"
    "truthy (getProp (getProp params ''message'') ''role'')"
    "truthy (getProp (getProp params ''message'') ''messageId'')"
  shows "validSendParams params"
proof -
  obtain p where p: "params = Some p" using assms(1) by (cases params) auto
  have "\<exists>kvs. p = JObj kvs"
    using assms(3) p by (cases p) auto
  then obtain kvs where kvs: "p = JObj kvs" ..
  obtain m where m: "map_of kvs ''message'' = Some m"
    using assms(3) p kvs by (cases "map_of kvs ''message''") auto
  have "\<exists>mkvs. m = JObj mkvs"
    using assms(5) p kvs m by (cases m) auto
  then obtain mkvs where mkvs: "m = JObj mkvs" ..
  obtain q where q: "map_of mkvs ''parts'' = Some q"
    using assms(5) p kvs m mkvs by (cases "map_of mkvs ''parts''") auto
  have "\<exists>ps. q = JArr ps"
    using assms(6) p kvs m mkvs q by (cases q) auto
  then obtain ps where ps: "q = JArr ps" ..
  show ?thesis
    using assms(7-9) by (simp add: validSendParams_def p kvs m mkvs q ps)
qed

lemma messageSendAccept_invalid:
  assumes "\<not> validSendParams params"
  shows "\<exists>e. messageSendAccept s rid params = Inl (jsonRpcError s rid INVALID_PARAMS e)"
proof -
  have "\<not> (truthy params \<and> isObjectType params \<and> truthy (getProp params ''message'') \<and>
    isObjectType (getProp params ''message'') \<and>
    truthy (getProp (getProp params ''message'') ''parts'') \<and>
    isArray (getProp (getProp params ''message'') ''parts'') \<and>
    arrayLength (getProp (getProp params ''message'') ''parts'') \<noteq> 0 \<and>
    truthy (getProp (getProp params ''message'') ''role'') \<and>
    truthy (getProp (getProp params ''message'') ''messageId''))"
    using assms validSendParams_intro by blast
  then show ?thesis
    unfolding messageSendAccept_def Let_def
    by (simp only: de_Morgan_conj split: if_split) blast
qed

lemma messageSendAccept_cases:
  obtains (refused) c e where "messageSendAccept s rid params = Inl (jsonRpcError s rid c e)"
  | (new) m where "validSendParams params" and "getProp params ''message'' = Some m"
      and "\<not> truthy (getProp (Some m) ''taskId'')"
      and "messageSendAccept s rid params = Inr (startTask s m (getProp (Some m) ''contextId'') None, m)"
  | (existing) m k t where "validSendParams params" and "getProp params ''message'' = Some m"
      and "getProp (Some m) ''taskId'' = Some (JStr k)" and "k \<noteq> []"
      and "tasks_get (tasks s) k = Some t" and "state (status t) \<notin> set TERMINAL_STATES"
      and "messageSendAccept s rid params
             = Inr (startTask s m (getProp (Some m) ''contextId'') (Some (k, t)), m)"
proof (cases "validSendParams params")
  case False
  then show thesis using messageSendAccept_invalid refused by blast
next
  case v: True
  note ch = validSendParams_checks [OF v]
  obtain m where m: "getProp params ''message'' = Some m"
    using ch(10) by (cases "getProp params ''message''") auto
  show thesis
  proof (cases "truthy (getProp (Some m) ''taskId'')")
    case False
    then show thesis
      using new [OF v m] messageSendAccept_new [OF v, of s rid] by (simp add: m)
  next
    case True
    have acc: "messageSendAccept s rid params =
       (case (case getProp (Some m) ''taskId'' of
                Some (JStr k) \<Rightarrow> map_option (Pair k) (tasks_get (tasks s) k) | _ \<Rightarrow> None) of
          None \<Rightarrow> Inl (jsonRpcError s rid TASK_NOT_FOUND ''Task not found'')
        | Some (k, existingTask) \<Rightarrow>
            if state (status existingTask) \<in> set TERMINAL_STATES
              then Inl (jsonRpcError s rid UNSUPPORTED_OPERATION ''Task is in terminal state'')
            else if truthy (getProp (Some m) ''contextId'') \<and>
                    \<not> strictEq (contextId existingTask) (getProp (Some m) ''contextId'')
              then Inl (jsonRpcError s rid INVALID_PARAMS ''contextId does not match task'')
            else Inr (startTask s m (getProp (Some m) ''contextId'') (Some (k, existingTask)), m))"
      using ch True by (simp add: messageSendAccept_def Let_def m cong: if_cong option.case_cong prod.case_cong)
    show thesis
    proof (cases "case getProp (Some m) ''taskId'' of
                Some (JStr k) \<Rightarrow> map_option (Pair k) (tasks_get (tasks s) k) | _ \<Rightarrow> None")
      case None
      then show thesis using acc refused by simp
    next
      case (Some kt)
      obtain k t where kt: "kt = (k, t)" by (cases kt)
      have tk: "getProp (Some m) ''taskId'' = Some (JStr k)" and g: "tasks_get (tasks s) k = Some t"
        using Some kt by (auto split: option.splits json.splits)
      have ne: "k \<noteq> []" using True tk by simp
      show thesis
      proof (cases "state (status t) \<in> set TERMINAL_STATES")
        case True
        then show thesis using acc Some kt refused by simp
      next
        case nt: False
        show thesis
        proof (cases "truthy (getProp (Some m) ''contextId'') \<and>
                    \<not> strictEq (contextId t) (getProp (Some m) ''contextId'')")
          case True
          then show thesis using acc Some kt nt refused by simp
        next
          case False
          then have "messageSendAccept s rid params
             = Inr (startTask s m (getProp (Some m) ''contextId'') (Some (k, t)), m)"
            using acc Some kt nt by simp
          then show thesis using existing [OF v m tk ne g nt] by blast
        qed
      qed
    qed
  qed
qed

lemma uuids_jsonRpc:
  "uuids (snd (jsonRpcSuccess s rid r)) = uuids s"
  "uuids (snd (jsonRpcError s rid c e)) = uuids s"
  by (simp_all add: jsonRpcSuccess_def jsonRpcError_def randomUUID_def Let_def split: option.splits)

lemma startTask_inv:
  assumes "startTask s m c ex = (s1, taskId, ctx, task)"
  shows "tasks_get (tasks s1) taskId = Some task"
    and "\<And>k'. k' \<noteq> taskId \<Longrightarrow> tasks_get (tasks s1) k' = tasks_get (tasks s) k'"
    and "uuids s1 = uuids s"
    and "ex = None \<Longrightarrow> taskId = uuids s (uuidReads s)"
    and "ex = None \<Longrightarrow> history task = Some [m]"
    and "\<And>k t. ex = Some (k, t) \<Longrightarrow> taskId = k"
    and "\<And>k t. ex = Some (k, t) \<Longrightarrow> history task = Some (histOf t @ [m])"
proof -
  have "tasks_get (tasks s1) taskId = Some task
      \<and> (\<forall>k'. k' \<noteq> taskId \<longrightarrow> tasks_get (tasks s1) k' = tasks_get (tasks s) k')
      \<and> uuids s1 = uuids s
      \<and> (ex = None \<longrightarrow> taskId = uuids s (uuidReads s) \<and> history task = Some [m])
      \<and> (\<forall>k t. ex = Some (k, t) \<longrightarrow> taskId = k \<and> history task = Some (histOf t @ [m]))"
  proof (cases ex)
    case None
    with assms show ?thesis
      by (auto simp: startTask_new Let_def tasks_get_tasks_set)
  next
    case (Some kt)
    obtain k t where "kt = (k, t)" by (cases kt)
    with Some assms show ?thesis
      by (auto simp: startTask_existing Let_def tasks_get_tasks_set histOf_def)
  qed
  then show "tasks_get (tasks s1) taskId = Some task"
    and "\<And>k'. k' \<noteq> taskId \<Longrightarrow> tasks_get (tasks s1) k' = tasks_get (tasks s) k'"
    and "uuids s1 = uuids s"
    and "ex = None \<Longrightarrow> taskId = uuids s (uuidReads s)"
    and "ex = None \<Longrightarrow> history task = Some [m]"
    and "\<And>k t. ex = Some (k, t) \<Longrightarrow> taskId = k"
    and "\<And>k t. ex = Some (k, t) \<Longrightarrow> history task = Some (histOf t @ [m])"
    by simp_all
qed

lemma messageSendFailed_inv:
  "tasks_get (tasks (snd (messageSendFailed s rid k task e))) k' =
     (if k' = k then Some (task\<lparr>status := \<lparr>state = ''TASK_STATE_FAILED'',
                                       message = Some (errorMessage e),
                                       timestamp = Some (clock s (clockReads s))\<rparr>\<rparr>)
      else tasks_get (tasks s) k')"
  "uuids (snd (messageSendFailed s rid k task e)) = uuids s"
  by (simp_all add: messageSendFailed_result tasks_jsonRpcSuccess tasks_get_storeTask uuids_jsonRpc)
     (simp_all add: storeTask_def tasks_get_tasks_set)

lemma messageSendSettle_inv:
  assumes "tasks_get (tasks s) k = Some task"
  shows "\<exists>t'. tasks_get (tasks (snd (messageSendSettle s rid k task out))) k = Some t'
           \<and> (\<exists>ys. histOf t' = histOf task @ ys)"
    and "\<And>k'. k' \<noteq> k \<Longrightarrow>
           tasks_get (tasks (snd (messageSendSettle s rid k task out))) k' = tasks_get (tasks s) k'"
    and "uuids (snd (messageSendSettle s rid k task out)) = uuids s"
proof -
  have "(\<exists>t'. tasks_get (tasks (snd (messageSendSettle s rid k task out))) k = Some t'
           \<and> (\<exists>ys. histOf t' = histOf task @ ys))
      \<and> (\<forall>k'. k' \<noteq> k \<longrightarrow>
           tasks_get (tasks (snd (messageSendSettle s rid k task out))) k' = tasks_get (tasks s) k')
      \<and> uuids (snd (messageSendSettle s rid k task out)) = uuids s"
  proof (cases out)
    case (Throws e)
    then show ?thesis
      by (simp add: messageSendSettle_def messageSendFailed_inv histOf_def)
  next
    case (Returns r)
    show ?thesis
    proof (cases r)
      case (ResultMessage m)
      show ?thesis
      proof (cases "history task")
        case None
        then show ?thesis
          using Returns ResultMessage
          by (simp add: messageSendSettle_def nowISO_def Let_def messageSendFailed_inv histOf_def
              tasks_get_storeTask)
             (simp add: storeTask_def)
      next
        case (Some h)
        then show ?thesis
          using Returns ResultMessage
          by (simp add: messageSendSettle_def nowISO_def Let_def histOf_def tasks_jsonRpcSuccess
              tasks_get_storeTask uuids_jsonRpc)
             (simp add: storeTask_def)
      qed
    next
      case (ResultTask t)
      then show ?thesis
        using Returns assms by (simp add: messageSendSettle_def tasks_jsonRpcSuccess uuids_jsonRpc)
    next
      case ResultWorking
      then show ?thesis
        using Returns assms by (simp add: messageSendSettle_def tasks_jsonRpcSuccess uuids_jsonRpc)
    qed
  qed
  then show "\<exists>t'. tasks_get (tasks (snd (messageSendSettle s rid k task out))) k = Some t'
           \<and> (\<exists>ys. histOf t' = histOf task @ ys)"
    and "\<And>k'. k' \<noteq> k \<Longrightarrow>
           tasks_get (tasks (snd (messageSendSettle s rid k task out))) k' = tasks_get (tasks s) k'"
    and "uuids (snd (messageSendSettle s rid k task out)) = uuids s"
    by simp_all
qed

lemma handleMessageSend_inv:
  assumes g: "tasks_get (tasks s) k = Some t" and u: "uuids s (uuidReads s) \<noteq> k"
  shows "\<exists>t'. tasks_get (tasks (snd (handleMessageSend onMessage s rid params))) k = Some t'
           \<and> (\<exists>ys. histOf t' = histOf t @ ys)
           \<and> (state (status t) \<in> set TERMINAL_STATES \<longrightarrow> t' = t)"
    and "uuids (snd (handleMessageSend onMessage s rid params)) = uuids s"
proof -
  have "(\<exists>t'. tasks_get (tasks (snd (handleMessageSend onMessage s rid params))) k = Some t'
           \<and> (\<exists>ys. histOf t' = histOf t @ ys)
           \<and> (state (status t) \<in> set TERMINAL_STATES \<longrightarrow> t' = t))
      \<and> uuids (snd (handleMessageSend onMessage s rid params)) = uuids s"
  proof (cases rule: messageSendAccept_cases [of s rid params])
    case (refused c e)
    then show ?thesis
      using g by (simp add: handleMessageSend_def tasks_jsonRpcError uuids_jsonRpc)
  next
    case (new m)
    obtain s1 taskId ctx task where st: "startTask s m (getProp (Some m) ''contextId'') None = (s1, taskId, ctx, task)"
      by (cases "startTask s m (getProp (Some m) ''contextId'') None") auto
    note si = startTask_inv [OF st]
    obtain t2 s2 where f: "fold (applyEffect taskId) (effects (onMessage m taskId ctx)) (task, s1) = (t2, s2)"
      by (cases "fold (applyEffect taskId) (effects (onMessage m taskId ctx)) (task, s1)")
    note fi = fold_applyEffect_inv [OF f si(1)]
    have h: "handleMessageSend onMessage s rid params
               = messageSendSettle s2 rid taskId t2 (outcome (onMessage m taskId ctx))"
      by (simp add: handleMessageSend_def new(4) st f)
    have ne: "k \<noteq> taskId" using si(4) u by simp
    have g2: "tasks_get (tasks s2) taskId = Some t2" using fi by simp
    have "tasks_get (tasks (snd (messageSendSettle s2 rid taskId t2 (outcome (onMessage m taskId ctx))))) k
            = tasks_get (tasks s) k"
      using messageSendSettle_inv(2) [OF g2 ne] fi si(2) ne by simp
    moreover have "uuids (snd (messageSendSettle s2 rid taskId t2 (outcome (onMessage m taskId ctx)))) = uuids s"
      using messageSendSettle_inv(3) [OF g2] fi si(3) by simp
    ultimately show ?thesis using g by (simp add: h)
  next
    case (existing m k0 t0)
    obtain s1 taskId ctx task where st: "startTask s m (getProp (Some m) ''contextId'') (Some (k0, t0)) = (s1, taskId, ctx, task)"
      by (cases "startTask s m (getProp (Some m) ''contextId'') (Some (k0, t0))") auto
    note si = startTask_inv [OF st]
    have tk: "taskId = k0" using si(6) by simp
    obtain t2 s2 where f: "fold (applyEffect taskId) (effects (onMessage m taskId ctx)) (task, s1) = (t2, s2)"
      by (cases "fold (applyEffect taskId) (effects (onMessage m taskId ctx)) (task, s1)")
    note fi = fold_applyEffect_inv [OF f si(1)]
    have h: "handleMessageSend onMessage s rid params
               = messageSendSettle s2 rid taskId t2 (outcome (onMessage m taskId ctx))"
      by (simp add: handleMessageSend_def existing(7) st f)
    have g2: "tasks_get (tasks s2) taskId = Some t2" using fi by simp
    have uu: "uuids (snd (messageSendSettle s2 rid taskId t2 (outcome (onMessage m taskId ctx)))) = uuids s"
      using messageSendSettle_inv(3) [OF g2] fi si(3) by simp
    show ?thesis
    proof (cases "k = k0")
      case True
      then have tt: "t0 = t" using g existing(5) by simp
      have h1: "histOf t2 = histOf t @ [m]"
        using fi si(7) [of k0 t0] tt by (simp add: histOf_def)
      obtain t' ys where "tasks_get (tasks (snd (messageSendSettle s2 rid taskId t2 (outcome (onMessage m taskId ctx))))) taskId = Some t'"
        and "histOf t' = histOf t2 @ ys"
        using messageSendSettle_inv(1) [OF g2] by blast
      then show ?thesis
        using uu True tk tt existing(6) h1 by (simp add: h)
    next
      case False
      then have ne: "k \<noteq> taskId" using tk by simp
      have "tasks_get (tasks (snd (messageSendSettle s2 rid taskId t2 (outcome (onMessage m taskId ctx))))) k
            = tasks_get (tasks s) k"
        using messageSendSettle_inv(2) [OF g2 ne] fi si(2) ne by simp
      then show ?thesis using g uu by (simp add: h)
    qed
  qed
  then show "\<exists>t'. tasks_get (tasks (snd (handleMessageSend onMessage s rid params))) k = Some t'
           \<and> (\<exists>ys. histOf t' = histOf t @ ys)
           \<and> (state (status t) \<in> set TERMINAL_STATES \<longrightarrow> t' = t)"
    and "uuids (snd (handleMessageSend onMessage s rid params)) = uuids s"
    by simp_all
qed

lemma handleTasksGet_tasks: "tasks (snd (handleTasksGet s rid p)) = tasks s"
  and handleTasksGet_uuids: "uuids (snd (handleTasksGet s rid p)) = uuids s"
  by (simp_all add: handleTasksGet_def tasks_jsonRpcError tasks_jsonRpcSuccess uuids_jsonRpc Let_def
      split: option.splits)

lemma handleTasksCancel_inv:
  assumes g: "tasks_get (tasks s) k = Some t"
  shows "\<exists>t'. tasks_get (tasks (snd (handleTasksCancel s rid p))) k = Some t'
           \<and> history t' = history t
           \<and> (state (status t) \<in> set TERMINAL_STATES \<longrightarrow> t' = t)"
    and "uuids (snd (handleTasksCancel s rid p)) = uuids s"
  using g
  by (auto simp: handleTasksCancel_def tasks_jsonRpcError tasks_jsonRpcSuccess uuids_jsonRpc
      nowISO_def Let_def tasks_get_tasks_set split: option.splits)

lemma handleTasksList_tasks: "tasks (snd (handleTasksList pd s rid p)) = tasks s"
  and handleTasksList_uuids: "uuids (snd (handleTasksList pd s rid p)) = uuids s"
  unfolding handleTasksList_def Let_def
  by (simp_all only: tasks_jsonRpcError tasks_jsonRpcSuccess uuids_jsonRpc if_distrib [of snd]
      if_distrib [of tasks] if_distrib [of uuids] if_cancel)

lemma routeMethod_inv:
  assumes g: "tasks_get (tasks s) k = Some t" and u: "uuids s (uuidReads s) \<noteq> k"
  shows "\<exists>t'. tasks_get (tasks (snd (routeMethod onMessage pd s rid call))) k = Some t'
           \<and> (\<exists>ys. histOf t' = histOf t @ ys)
           \<and> ((\<forall>p. call \<noteq> MessageSend p) \<longrightarrow> history t' = history t)
           \<and> (state (status t) \<in> set TERMINAL_STATES \<longrightarrow> t' = t)"
    and "uuids (snd (routeMethod onMessage pd s rid call)) = uuids s"
proof -
  have "(\<exists>t'. tasks_get (tasks (snd (routeMethod onMessage pd s rid call))) k = Some t'
           \<and> (\<exists>ys. histOf t' = histOf t @ ys)
           \<and> ((\<forall>p. call \<noteq> MessageSend p) \<longrightarrow> history t' = history t)
           \<and> (state (status t) \<in> set TERMINAL_STATES \<longrightarrow> t' = t))
      \<and> uuids (snd (routeMethod onMessage pd s rid call)) = uuids s"
  proof (cases call)
    case (MessageSend p)
    then show ?thesis
      using handleMessageSend_inv [OF g u, of onMessage rid p] by (simp add: routeMethod_def)
  next
    case (TasksGet p)
    then show ?thesis
      using g by (simp add: routeMethod_def handleTasksGet_tasks handleTasksGet_uuids)
  next
    case (TasksCancel p)
    then show ?thesis
      using handleTasksCancel_inv [OF g, of rid p] by (auto simp: routeMethod_def histOf_def)
  next
    case (TasksList p)
    then show ?thesis
      using g by (simp add: routeMethod_def handleTasksList_tasks handleTasksList_uuids)
  next
    case AgentCard
    then show ?thesis
      using g by (simp add: routeMethod_def tasks_jsonRpcSuccess uuids_jsonRpc)
  next
    case (OtherMethod m)
    then show ?thesis
      using g by (simp add: routeMethod_def tasks_jsonRpcError uuids_jsonRpc)
  qed
  then show "\<exists>t'. tasks_get (tasks (snd (routeMethod onMessage pd s rid call))) k = Some t'
           \<and> (\<exists>ys. histOf t' = histOf t @ ys)
           \<and> ((\<forall>p. call \<noteq> MessageSend p) \<longrightarrow> history t' = history t)
           \<and> (state (status t) \<in> set TERMINAL_STATES \<longrightarrow> t' = t)"
    and "uuids (snd (routeMethod onMessage pd s rid call)) = uuids s"
    by simp_all
qed

lemma uuids_storeTask: "uuids (storeTask k t s) = uuids s"
  by (simp add: storeTask_def)

lemma step_inv:
  assumes g: "tasks_get (tasks s) k = Some t" and u: "uuids s (uuidReads s) \<noteq> k"
  shows "\<exists>t'. tasks_get (tasks (step onMessage pd ev s)) k = Some t'
           \<and> (\<exists>ys. histOf t' = histOf t @ ys)
           \<and> (isMessageSend ev \<or> history t' = history t)"
    and "uuids (step onMessage pd ev s) = uuids s"
proof -
  have "(\<exists>t'. tasks_get (tasks (step onMessage pd ev s)) k = Some t'
           \<and> (\<exists>ys. histOf t' = histOf t @ ys)
           \<and> (isMessageSend ev \<or> history t' = history t))
      \<and> uuids (step onMessage pd ev s) = uuids s"
  proof (cases ev)
    case (Request rid call)
    then show ?thesis
      using routeMethod_inv [OF g u, of onMessage pd rid call] by (cases call) auto
  next
    case (ContextSendStatus k' st)
    show ?thesis
    proof (cases "tasks_get (tasks s) k'")
      case None
      then show ?thesis using g ContextSendStatus by simp
    next
      case (Some t0)
      then show ?thesis
        using g ContextSendStatus
        by (auto simp: sendStatus_eq tasks_get_storeTask histOf_def uuids_storeTask)
    qed
  next
    case (ContextSendArtifact k' a)
    show ?thesis
    proof (cases "tasks_get (tasks s) k'")
      case None
      then show ?thesis using g ContextSendArtifact by simp
    next
      case (Some t0)
      then show ?thesis
        using g ContextSendArtifact
        by (auto simp: sendArtifact_eq tasks_get_storeTask histOf_def uuids_storeTask)
    qed
  next
    case (CallbackCalled rid params)
    show ?thesis
    proof (cases rule: messageSendAccept_cases [of s rid params])
      case (refused c e)
      then show ?thesis
        using g CallbackCalled by (simp add: tasks_jsonRpcError uuids_jsonRpc)
    next
      case (new m)
      obtain s1 taskId ctx task where st: "startTask s m (getProp (Some m) ''contextId'') None = (s1, taskId, ctx, task)"
        by (cases "startTask s m (getProp (Some m) ''contextId'') None") auto
      note si = startTask_inv [OF st]
      have "k \<noteq> taskId" using si(4) u by simp
      then show ?thesis
        using g CallbackCalled new(4) st si(2) [of k] si(3) by simp
    next
      case (existing m k0 t0)
      obtain s1 taskId ctx task where st: "startTask s m (getProp (Some m) ''contextId'') (Some (k0, t0)) = (s1, taskId, ctx, task)"
        by (cases "startTask s m (getProp (Some m) ''contextId'') (Some (k0, t0))") auto
      note si = startTask_inv [OF st]
      have tk: "taskId = k0" using si(6) by simp
      show ?thesis
      proof (cases "k = k0")
        case True
        then have "t0 = t" using g existing(5) by simp
        then show ?thesis
          using CallbackCalled existing(7) st si(1) si(3) si(7) [of k0 t0] True tk
          by (simp add: histOf_def)
      next
        case False
        then show ?thesis
          using g CallbackCalled existing(7) st si(2) [of k] si(3) tk by simp
      qed
    qed
  next
    case (CallbackSettles rid k' out)
    show ?thesis
    proof (cases "tasks_get (tasks s) k'")
      case None
      then show ?thesis using g CallbackSettles by simp
    next
      case (Some t0)
      note mi = messageSendSettle_inv [OF Some, where rid = rid and out = out]
      show ?thesis
      proof (cases "k = k'")
        case True
        then have "t0 = t" using g Some by simp
        then show ?thesis using CallbackSettles Some True mi(1) mi(3) by simp
      next
        case False
        then show ?thesis using g CallbackSettles Some mi(2) [of k] mi(3) by simp
      qed
    qed
  qed
  then show "\<exists>t'. tasks_get (tasks (step onMessage pd ev s)) k = Some t'
           \<and> (\<exists>ys. histOf t' = histOf t @ ys)
           \<and> (isMessageSend ev \<or> history t' = history t)"
    and "uuids (step onMessage pd ev s) = uuids s"
    by simp_all
qed

lemma run_inv:
  assumes "tasks_get (tasks s) k = Some t" and "\<forall>n. uuids s n \<noteq> k"
  shows "\<exists>t'. tasks_get (tasks (fold (step onMessage pd) evs s)) k = Some t'
           \<and> (\<exists>ys. histOf t' = histOf t @ ys)"
  using assms
proof (induction evs arbitrary: s t)
  case Nil
  then show ?case by simp
next
  case (Cons ev evs)
  have u: "uuids s (uuidReads s) \<noteq> k" using Cons.prems(2) by simp
  obtain t1 ys1 where g1: "tasks_get (tasks (step onMessage pd ev s)) k = Some t1"
    and h1: "histOf t1 = histOf t @ ys1"
    using step_inv(1) [OF Cons.prems(1) u, of onMessage pd ev] by blast
  have u1: "\<forall>n. uuids (step onMessage pd ev s) n \<noteq> k"
    using step_inv(2) [OF Cons.prems(1) u, of onMessage pd ev] Cons.prems(2) by simp
  obtain t' ys where "tasks_get (tasks (fold (step onMessage pd) evs (step onMessage pd ev s))) k = Some t'"
    and "histOf t' = histOf t1 @ ys"
    using Cons.IH [OF g1 u1] by blast
  then show ?case using h1 by simp
qed

subsection \<open>Terminal states\<close>






subsection \<open>The id of an error response\<close>

lemma jsonRpcError_null:
  "jsonRpcError s None c m =
     (\<lparr>jsonrpc = ''2.0'', id_r = Some (IdStr (uuids s (uuidReads s))), result = None,
       error = Some \<lparr>code = c, message_e = m, data = None\<rparr>\<rparr>,
      s\<lparr>uuidReads := Suc (uuidReads s)\<rparr>)"
  by (simp add: jsonRpcError_def randomUUID_def)

text \<open>
  Against claim C5 as stated: a body that \<^verbatim>\<open>JSON.parse\<close> refuses, and an envelope whose id
  is an object, are both answered with an error whose id is a string, the result of
  \<^verbatim>\<open>randomUUID()\<close>, not \<^verbatim>\<open>null\<close>; and an envelope whose id is \<^verbatim>\<open>null\<close>, which is
  present and neither a string nor a number, is not answered with an error at all but
  handed to the router.
\<close>

theorem error_id_not_null_counterexample:
  "ex_parse ''{nope'' = None \<and>
   handleJsonRpc ex_auth ex_parse ex_empty None ''{nope'' =
     (Respond 200 \<lparr>jsonrpc = ''2.0'', id_r = Some (IdStr ''u''), result = None,
                   error = Some \<lparr>code = - 32700, message_e = ''Parse error'', data = None\<rparr>\<rparr>,
      ex_empty\<lparr>uuidReads := 1\<rparr>) \<and>
   handleJsonRpc ex_auth ex_parse ex_empty None ''{id:{}}'' =
     (Respond 200 \<lparr>jsonrpc = ''2.0'', id_r = Some (IdStr ''u''), result = None,
                   error = Some \<lparr>code = - 32600,
                                 message_e = ''Invalid Request: id must be string or number'',
                                 data = None\<rparr>\<rparr>,
      ex_empty\<lparr>uuidReads := 1\<rparr>) \<and>
   handleJsonRpc ex_auth ex_parse ex_empty None ''{id:null}'' =
     (Routed (JObj [(''jsonrpc'', JStr ''2.0''), (''id'', JNull), (''method'', JStr ''tasks/get'')]),
      ex_empty)"
  by (simp add: handleJsonRpc_def ex_parse_def jsonRpcError_null validateJsonRpcRequestDetailed_def
      ex_empty_def ex_uuids_def PARSE_ERROR_def INVALID_REQUEST_def ex_auth_def)

text \<open>
  Claim C5, amended. When the body is not parseable JSON the answer is the error
  PARSE_ERROR (-32700), and when the envelope is an object whose id is present and
  neither a string, a number nor \<^verbatim>\<open>null\<close> it is the error INVALID_REQUEST (-32600); in both
  cases the id of the response is the string \<^verbatim>\<open>randomUUID()\<close> returns, which
  \<^verbatim>\<open>jsonRpcError\<close> puts in the place of a \<^verbatim>\<open>null\<close> id. No response that \<^verbatim>\<open>jsonRpcError\<close>
  builds has a \<^verbatim>\<open>null\<close> id.
\<close>

theorem error_id_is_uuid:
  assumes "validateAuth authorization"
  shows "(jsonParse body = None \<longrightarrow>
            handleJsonRpc validateAuth jsonParse s authorization body =
              (Respond 200 \<lparr>jsonrpc = ''2.0'', id_r = Some (IdStr (uuids s (uuidReads s))),
                            result = None,
                            error = Some \<lparr>code = - 32700, message_e = ''Parse error'', data = None\<rparr>\<rparr>,
               s\<lparr>uuidReads := Suc (uuidReads s)\<rparr>))
       \<and> (\<forall>kvs v. jsonParse body = Some (JObj kvs) \<and> map_of kvs ''id'' = Some v \<and> invalidIdType v \<longrightarrow>
            handleJsonRpc validateAuth jsonParse s authorization body =
              (Respond 200 \<lparr>jsonrpc = ''2.0'', id_r = Some (IdStr (uuids s (uuidReads s))),
                            result = None,
                            error = Some \<lparr>code = - 32600,
                                          message_e = ''Invalid Request: id must be string or number'',
                                          data = None\<rparr>\<rparr>,
               s\<lparr>uuidReads := Suc (uuidReads s)\<rparr>))
       \<and> (\<forall>rid c m. id_r (fst (jsonRpcError s rid c m)) \<noteq> None)"
proof (intro conjI allI impI)
  assume "jsonParse body = None"
  then show "handleJsonRpc validateAuth jsonParse s authorization body =
              (Respond 200 \<lparr>jsonrpc = ''2.0'', id_r = Some (IdStr (uuids s (uuidReads s))),
                            result = None,
                            error = Some \<lparr>code = - 32700, message_e = ''Parse error'', data = None\<rparr>\<rparr>,
               s\<lparr>uuidReads := Suc (uuidReads s)\<rparr>)"
    using assms by (simp add: handleJsonRpc_def jsonRpcError_null PARSE_ERROR_def)
next
  fix kvs v
  assume a: "jsonParse body = Some (JObj kvs) \<and> map_of kvs ''id'' = Some v \<and> invalidIdType v"
  then have "extractId (Some v) = Inl ()" by (cases v) simp_all
  then have "validateJsonRpcRequestDetailed (JObj kvs)
      = \<lparr>valid = False, id_v = None, code_v = INVALID_REQUEST,
         message_v = ''Invalid Request: id must be string or number''\<rparr>"
    using a by (simp add: validateJsonRpcRequestDetailed_def)
  then show "handleJsonRpc validateAuth jsonParse s authorization body =
              (Respond 200 \<lparr>jsonrpc = ''2.0'', id_r = Some (IdStr (uuids s (uuidReads s))),
                            result = None,
                            error = Some \<lparr>code = - 32600,
                                          message_e = ''Invalid Request: id must be string or number'',
                                          data = None\<rparr>\<rparr>,
               s\<lparr>uuidReads := Suc (uuidReads s)\<rparr>)"
    using assms a by (simp add: handleJsonRpc_def jsonRpcError_null INVALID_REQUEST_def)
next
  fix rid c m
  show "id_r (fst (jsonRpcError s rid c m)) \<noteq> None"
    by (simp add: jsonRpcError_def randomUUID_def Let_def split: option.splits)
qed

theorem error_id_is_uuid_witness:
  "ex_auth None \<and> ex_parse ''{nope'' = None \<and>
   ex_parse ''{id:{}}'' = Some (JObj [(''jsonrpc'', JStr ''2.0''), (''id'', JObj []),
                                      (''method'', JStr ''tasks/get'')]) \<and>
   invalidIdType (JObj []) \<and>
   fst (handleJsonRpc ex_auth ex_parse ex_empty None ''{nope'') =
     Respond 200 \<lparr>jsonrpc = ''2.0'', id_r = Some (IdStr ''u''), result = None,
                  error = Some \<lparr>code = - 32700, message_e = ''Parse error'', data = None\<rparr>\<rparr> \<and>
   fst (handleJsonRpc ex_auth ex_parse ex_empty None ''{id:{}}'') =
     Respond 200 \<lparr>jsonrpc = ''2.0'', id_r = Some (IdStr ''u''), result = None,
                  error = Some \<lparr>code = - 32600,
                                message_e = ''Invalid Request: id must be string or number'',
                                data = None\<rparr>\<rparr>"
proof -
  have a: "ex_auth None" by (simp add: ex_auth_def)
  have p1: "ex_parse ''{nope'' = None" by (simp add: ex_parse_def)
  have p2: "ex_parse ''{id:{}}'' = Some (JObj [(''jsonrpc'', JStr ''2.0''), (''id'', JObj []),
                                      (''method'', JStr ''tasks/get'')])"
    by (simp add: ex_parse_def)
  have u: "uuids ex_empty (uuidReads ex_empty) = ''u''" by (simp add: ex_empty_def ex_uuids_def)
  from error_id_is_uuid [where validateAuth = ex_auth and authorization = None
      and jsonParse = ex_parse and s = ex_empty and body = "''{nope''", OF a]
    error_id_is_uuid [where validateAuth = ex_auth and authorization = None
      and jsonParse = ex_parse and s = ex_empty and body = "''{id:{}}''", OF a]
  show ?thesis using a p1 p2 u by simp
qed

section \<open>The relay client\<close>

lemma ex_connecting_eq:
  "ex_connecting = \<lparr>ws = Some 0, reconnectTimer = False, isConnected = False,
      isStopping = False, autoReconnect = True, authFrame = JObj [(''type'', JStr ''auth'')],
      sockets = [\<lparr>readyState = OPEN, sent = [JObj [(''type'', JStr ''auth'')]]\<rparr>],
      promises = [\<lparr>settled = Pending, retries = False\<rparr>]\<rparr>"
  by (simp add: ex_connecting_def ex_client_def newRelayClient_def connect_def doConnect_def
      sendAuth_def setReadyState_def socketSend_def)

lemma ex_afterAuthError_eq:
  "ex_afterAuthError = \<lparr>ws = Some 0, reconnectTimer = False, isConnected = False,
      isStopping = False, autoReconnect = True, authFrame = JObj [(''type'', JStr ''auth'')],
      sockets = [\<lparr>readyState = CLOSING, sent = [JObj [(''type'', JStr ''auth'')]]\<rparr>],
      promises = [\<lparr>settled = Pending, retries = False\<rparr>]\<rparr>"
  by (simp add: ex_afterAuthError_def ex_connecting_eq ex_frames_def handleMessage_def
      socketClose_def Let_def)

lemma ex_afterClose_eq:
  "ex_afterClose = \<lparr>ws = None, reconnectTimer = True, isConnected = False,
      isStopping = False, autoReconnect = True, authFrame = JObj [(''type'', JStr ''auth'')],
      sockets = [\<lparr>readyState = CLOSED, sent = [JObj [(''type'', JStr ''auth'')]]\<rparr>],
      promises = [\<lparr>settled = Pending, retries = False\<rparr>]\<rparr>"
  by (simp add: ex_afterClose_def ex_afterAuthError_eq setReadyState_def scheduleReconnect_def
      Let_def)

text \<open>
  Against claim C4 as stated: a client with the default configuration connects, the socket
  opens, and the relay answers \<^verbatim>\<open>auth_error\<close>. The client calls \<^verbatim>\<open>close()\<close> on the socket;
  when the \<^verbatim>\<open>close\<close> event of the socket arrives, the reconnect timer is armed, and the
  promise of \<^verbatim>\<open>connect()\<close> is still pending.
\<close>

theorem auth_error_reconnects_counterexample:
  "autoReconnect ex_connecting \<and> \<not> isStopping ex_connecting \<and>
   \<not> reconnectTimer ex_connecting \<and>
   readyState (sockets ex_afterAuthError ! 0) = CLOSING \<and>
   settled (promises ex_afterAuthError ! 0) = Pending \<and>
   reconnectTimer ex_afterClose \<and>
   settled (promises ex_afterClose ! 0) = Pending"
  by (simp add: ex_connecting_eq ex_afterAuthError_eq ex_afterClose_eq)

text \<open>
  Claim C4, amended. When the client receives an \<^verbatim>\<open>auth_error\<close> frame on its open socket,
  it calls \<^verbatim>\<open>close()\<close> on the socket, which goes to CLOSING, and the handling of the frame
  arms no timer. When the \<^verbatim>\<open>close\<close> event of the socket follows, the client forgets the
  socket and is not connected, and a reconnect timer is armed afterwards exactly when one
  was armed before or auto-reconnect is enabled and the client is not stopping.
\<close>

theorem auth_error_closes_socket:
  assumes p: "jsonParse frame = Some msg"
    and ty: "getProp (Some msg) ''type'' = Some (JStr ''auth_error'')"
    and w: "ws c = Some i" and i: "i < length (sockets c)"
    and op: "readyState (sockets c ! i) = OPEN"
  shows "readyState (sockets (relayStep jsonParse onRequest (OnMessage i frame) c) ! i) = CLOSING
       \<and> reconnectTimer (relayStep jsonParse onRequest (OnMessage i frame) c) = reconnectTimer c
       \<and> ws (relayStep jsonParse onRequest (OnMessage i frame) c) = Some i
       \<and> ws (relayStep jsonParse onRequest (OnClose i)
               (relayStep jsonParse onRequest (OnMessage i frame) c)) = None
       \<and> isConnected (relayStep jsonParse onRequest (OnClose i)
               (relayStep jsonParse onRequest (OnMessage i frame) c)) = False
       \<and> readyState (sockets (relayStep jsonParse onRequest (OnClose i)
               (relayStep jsonParse onRequest (OnMessage i frame) c)) ! i) = CLOSED
       \<and> reconnectTimer (relayStep jsonParse onRequest (OnClose i)
               (relayStep jsonParse onRequest (OnMessage i frame) c))
           = (reconnectTimer c \<or> (autoReconnect c \<and> \<not> isStopping c))"
proof -
  have m: "relayStep jsonParse onRequest (OnMessage i frame) c
             = c\<lparr>sockets := (sockets c)[i := (sockets c ! i)\<lparr>readyState := CLOSING\<rparr>]\<rparr>"
    using p ty w i op by (simp add: handleMessage_def socketClose_def Let_def)
  show ?thesis
    unfolding m using i w
    by (auto simp: setReadyState_def scheduleReconnect_def Let_def)
qed

theorem auth_error_closes_socket_witness:
  "ex_frames ''auth_error'' = Some (JObj [(''type'', JStr ''auth_error''), (''error'', JStr ''bad token'')]) \<and>
   ws ex_connecting = Some 0 \<and> 0 < length (sockets ex_connecting) \<and>
   readyState (sockets ex_connecting ! 0) = OPEN \<and>
   readyState (sockets (relayStep ex_frames ex_onRequest (OnMessage 0 ''auth_error'') ex_connecting) ! 0)
     = CLOSING \<and>
   reconnectTimer (relayStep ex_frames ex_onRequest (OnClose 0)
      (relayStep ex_frames ex_onRequest (OnMessage 0 ''auth_error'') ex_connecting)) = True"
proof -
  have p: "ex_frames ''auth_error'' = Some (JObj [(''type'', JStr ''auth_error''), (''error'', JStr ''bad token'')])"
    by (simp add: ex_frames_def)
  have ty: "getProp (Some (JObj [(''type'', JStr ''auth_error''), (''error'', JStr ''bad token'')])) ''type''
      = Some (JStr ''auth_error'')" by simp
  have w: "ws ex_connecting = Some 0" and i: "0 < length (sockets ex_connecting)"
    and op: "readyState (sockets ex_connecting ! 0) = OPEN"
    and c: "autoReconnect ex_connecting" "\<not> isStopping ex_connecting"
    by (simp_all add: ex_connecting_eq)
  from auth_error_closes_socket [where jsonParse = ex_frames and onRequest = ex_onRequest,
      OF p ty w i op] p w i op c
  show ?thesis by simp
qed

section \<open>The objects behind a read\<close>

lemma updateObject_new:
  "objects h a = Some obj \<Longrightarrow> updateObject a f h = h\<lparr>objects := (objects h)(a \<mapsto> f obj)\<rparr>"
  by (simp add: updateObject_def)

lemma responseTaskOf_unchanged:
  assumes "storedTask h a" and "responseTaskOf hl a h = (b, h')"
  shows "unchangedHeap h h'"
proof -
  obtain obj where obj: "objects h a = Some obj"
    using assms(1) by (auto simp: storedTask_def split: option.splits)
  show ?thesis
    using assms obj
    by (auto simp: responseTaskOf_def newObject_def newArray_def updateObject_def unchangedHeap_def
        Let_def split: option.splits if_splits)
qed

lemma taskOf_unchanged:
  assumes "storedTask h a" and "unchangedHeap h h'"
  shows "taskOf h' a = taskOf h a"
  using assms
  by (auto simp: taskOf_def storedTask_def unchangedHeap_def split: option.splits)

lemma responseTaskOf_task:
  assumes st: "storedTask h a" and t: "taskOf h a = Some task"
    and r: "responseTaskOf hl a h = (b, h')"
  shows "taskOf h' b =
     Some (case hl of
             None \<Rightarrow> task
           | Some n \<Rightarrow>
               if n \<ge> 0 then
                 (if n = 0 then task\<lparr>history := None\<rparr>
                  else (case history task of
                          None \<Rightarrow> task
                        | Some xs \<Rightarrow> task\<lparr>history := Some (slice1 (- n) xs)\<rparr>))
               else task)"
proof -
  obtain obj where obj: "objects h a = Some obj"
    using st by (auto simp: storedTask_def split: option.splits)
  have a: "a < nextRef h" using st by (simp add: storedTask_def)
  have hr: "\<And>r. history_o obj = Some r \<Longrightarrow> r < nextRef h \<and> arrays h r \<noteq> None"
    and ar: "\<And>r. artifacts_o obj = Some r \<Longrightarrow> r < nextRef h \<and> arrays h r \<noteq> None"
    using st obj by (auto simp: storedTask_def split: option.splits)
  show ?thesis
  proof (cases hl)
    case None
    then show ?thesis using r t by (simp add: responseTaskOf_def)
  next
    case (Some n)
    show ?thesis
    proof (cases "n \<ge> 0")
      case False
      then show ?thesis using r t Some by (simp add: responseTaskOf_def)
    next
      case True
      show ?thesis
      proof (cases "n = 0")
        case z: True
        then show ?thesis
          using r t Some obj a ar
          by (auto simp: responseTaskOf_def newObject_def updateObject_def taskOf_def Let_def
              split: option.splits)
      next
        case nz: False
        show ?thesis
        proof (cases "history_o obj")
          case None
          then show ?thesis
            using r t Some obj a ar True nz
            by (auto simp: responseTaskOf_def newObject_def updateObject_def taskOf_def Let_def
                split: option.splits)
        next
          case (Some r0)
          obtain xs where xs: "arrays h r0 = Some xs" using hr [OF Some] by auto
          have r0: "r0 < nextRef h" using hr [OF Some] by simp
          show ?thesis
            using r t \<open>hl = Some n\<close> obj a ar True nz Some xs r0
            by (auto simp: responseTaskOf_def newObject_def newArray_def updateObject_def taskOf_def
                Let_def split: option.splits)
        qed
      qed
    qed
  qed
qed

lemma pageTaskOf_unchanged:
  assumes "storedTask h a" and "pageTaskOf hl inc a h = (b, h')"
  shows "unchangedHeap h h'"
proof -
  obtain obj where obj: "objects h a = Some obj"
    using assms(1) by (auto simp: storedTask_def split: option.splits)
  show ?thesis
    using assms obj
    by (auto simp: pageTaskOf_def newObject_def newArray_def updateObject_def unchangedHeap_def
        Let_def split: option.splits if_splits)
qed

lemma pageTaskOf_task:
  assumes st: "storedTask h a" and t: "taskOf h a = Some task"
    and r: "pageTaskOf hl inc a h = (b, h')"
  shows "taskOf h' b = Some (pageTask hl inc task)"
proof -
  obtain obj where obj: "objects h a = Some obj"
    using st by (auto simp: storedTask_def split: option.splits)
  have a: "a < nextRef h" using st by (simp add: storedTask_def)
  have hr: "\<And>r. history_o obj = Some r \<Longrightarrow> r < nextRef h \<and> arrays h r \<noteq> None"
    and ar: "\<And>r. artifacts_o obj = Some r \<Longrightarrow> r < nextRef h \<and> arrays h r \<noteq> None"
    using st obj by (auto simp: storedTask_def split: option.splits)
  have tk: "task = \<lparr>id_t = id_o obj, contextId = contextId_o obj, status = status_o obj,
                artifacts = (case artifacts_o obj of None \<Rightarrow> None | Some r \<Rightarrow> arrays h r),
                history = (case history_o obj of None \<Rightarrow> None | Some r \<Rightarrow> arrays h r),
                metadata = metadata_o obj\<rparr>"
    using t obj by (simp add: taskOf_def)
  show ?thesis
  proof (cases "history_o obj")
    case None
    show ?thesis
    proof (cases "artifacts_o obj")
      case n2: None
      then show ?thesis
        using r obj None
        by (auto simp: tk pageTaskOf_def pageTask_def newObject_def updateObject_def taskOf_def Let_def)
    next
      case (Some r1)
      obtain ys where ys: "arrays h r1 = Some ys" using ar [OF Some] by auto
      have r1: "r1 < nextRef h" using ar [OF Some] by simp
      show ?thesis
        using r obj None Some ys r1
        by (auto simp: tk pageTaskOf_def pageTask_def newObject_def updateObject_def taskOf_def Let_def)
    qed
  next
    case (Some r0)
    obtain xs where xs: "arrays h r0 = Some xs" using hr [OF Some] by auto
    have r0: "r0 < nextRef h" using hr [OF Some] by simp
    show ?thesis
    proof (cases "artifacts_o obj")
      case None
      then show ?thesis
        using r obj Some xs r0
        by (cases hl)
           (auto simp: tk pageTaskOf_def pageTask_def newObject_def newArray_def updateObject_def
             taskOf_def Let_def)
    next
      case s1: (Some r1)
      obtain ys where ys: "arrays h r1 = Some ys" using ar [OF s1] by auto
      have r1: "r1 < nextRef h" using ar [OF s1] by simp
      show ?thesis
        using r obj Some xs r0 s1 ys r1
        by (cases hl)
           (auto simp: tk pageTaskOf_def pageTask_def newObject_def newArray_def updateObject_def
             taskOf_def Let_def)
    qed
  qed
qed

lemma handleTasksGet_responseTaskOf:
  assumes st: "storedTask h a" and g: "tasks_get (tasks s) k = taskOf h a" and ne: "k \<noteq> []"
    and hl: "case hl of None \<Rightarrow> True | Some n \<Rightarrow> 0 \<le> n"
    and r: "responseTaskOf hl a h = (b, h')"
  shows "result (fst (handleTasksGet s rid (Some \<lparr>id_g = k, historyLength = hl\<rparr>)))
           = map_option ResTask (taskOf h' b)"
proof -
  obtain task where t: "taskOf h a = Some task"
    using st by (auto simp: storedTask_def taskOf_def split: option.splits)
  show ?thesis
    using g ne hl
    by (cases hl)
       (simp_all add: responseTaskOf_task [OF st t r] t handleTasksGet_def result_jsonRpcSuccess)
qed

subsection \<open>The stored history\<close>

text \<open>
  Claim C9. The stored history of a task never shrinks. Whatever event happens (a routed
  request of any method, the steps of a \<^verbatim>\<open>message/send\<close> interleaved with others, a call of
  a context's \<^verbatim>\<open>sendStatus\<close> or \<^verbatim>\<open>sendArtifact\<close>), the task stays in the store and its
  history afterwards is its history before with entries appended; only the events of
  \<^verbatim>\<open>message/send\<close> change it at all; and so along every run of events. \<^verbatim>\<open>tasks/get\<close> and
  \<^verbatim>\<open>tasks/list\<close>, whatever their \<open>historyLength\<close>, leave the task map as it was. On the
  objects: the task \<^verbatim>\<open>tasks/get\<close> answers with and the tasks of a page of \<^verbatim>\<open>tasks/list\<close> are
  built without a write to any object or array that existed before (the truncated history
  is a new array, the field is deleted from a new object), so the stored object stands for
  the same task afterwards; and these objects stand for the very tasks the handlers
  above answer with. The hypothesis on \<open>uuids\<close> is the uniqueness of \<^verbatim>\<open>randomUUID()\<close>: it
  never returns the id of this task.
\<close>

theorem history_never_shrinks:
  assumes g: "tasks_get (tasks s) k = Some t" and u: "\<forall>n. uuids s n \<noteq> k"
  shows "(\<forall>ev. \<exists>t'. tasks_get (tasks (step onMessage pd ev s)) k = Some t'
                  \<and> (\<exists>ys. histOf t' = histOf t @ ys)
                  \<and> (isMessageSend ev \<or> history t' = history t))
       \<and> (\<forall>evs. \<exists>t'. tasks_get (tasks (fold (step onMessage pd) evs s)) k = Some t'
                  \<and> (\<exists>ys. histOf t' = histOf t @ ys))
       \<and> (\<forall>rid p. tasks (snd (handleTasksGet s rid p)) = tasks s)
       \<and> (\<forall>rid p. tasks (snd (handleTasksList pd s rid p)) = tasks s)
       \<and> (\<forall>h a hl b h'. storedTask h a \<and> responseTaskOf hl a h = (b, h') \<longrightarrow>
             unchangedHeap h h' \<and> taskOf h' a = taskOf h a)
       \<and> (\<forall>h a hl inc b h'. storedTask h a \<and> pageTaskOf hl inc a h = (b, h') \<longrightarrow>
             unchangedHeap h h' \<and> taskOf h' a = taskOf h a)
       \<and> (\<forall>h a hl b h' rid. storedTask h a \<and> taskOf h a = Some t \<and> k \<noteq> []
               \<and> (case hl of None \<Rightarrow> True | Some n \<Rightarrow> 0 \<le> n)
               \<and> responseTaskOf hl a h = (b, h') \<longrightarrow>
             result (fst (handleTasksGet s rid (Some \<lparr>id_g = k, historyLength = hl\<rparr>)))
               = map_option ResTask (taskOf h' b))
       \<and> (\<forall>h a hl inc b h'. storedTask h a \<and> taskOf h a = Some t
               \<and> pageTaskOf hl inc a h = (b, h') \<longrightarrow>
             taskOf h' b = Some (pageTask hl inc t))"
proof (intro conjI allI impI)
  fix ev
  have u0: "uuids s (uuidReads s) \<noteq> k" using u by simp
  show "\<exists>t'. tasks_get (tasks (step onMessage pd ev s)) k = Some t'
                  \<and> (\<exists>ys. histOf t' = histOf t @ ys)
                  \<and> (isMessageSend ev \<or> history t' = history t)"
    by (rule step_inv(1) [OF g u0])
next
  fix evs
  show "\<exists>t'. tasks_get (tasks (fold (step onMessage pd) evs s)) k = Some t'
                  \<and> (\<exists>ys. histOf t' = histOf t @ ys)"
    by (rule run_inv [OF g u])
next
  fix rid p
  show "tasks (snd (handleTasksGet s rid p)) = tasks s" by (rule handleTasksGet_tasks)
next
  fix rid p
  show "tasks (snd (handleTasksList pd s rid p)) = tasks s" by (rule handleTasksList_tasks)
next
  fix h a hl b h'
  assume a: "storedTask h a \<and> responseTaskOf hl a h = (b, h')"
  then show "unchangedHeap h h'" by (blast intro: responseTaskOf_unchanged)
  then show "taskOf h' a = taskOf h a" using a by (blast intro: taskOf_unchanged)
next
  fix h a hl inc b h'
  assume a: "storedTask h a \<and> pageTaskOf hl inc a h = (b, h')"
  then show "unchangedHeap h h'" by (blast intro: pageTaskOf_unchanged)
  then show "taskOf h' a = taskOf h a" using a by (blast intro: taskOf_unchanged)
next
  fix h a hl b h' rid
  assume a: "storedTask h a \<and> taskOf h a = Some t \<and> k \<noteq> []
               \<and> (case hl of None \<Rightarrow> True | Some n \<Rightarrow> 0 \<le> n)
               \<and> responseTaskOf hl a h = (b, h')"
  then have "tasks_get (tasks s) k = taskOf h a" using g by simp
  then show "result (fst (handleTasksGet s rid (Some \<lparr>id_g = k, historyLength = hl\<rparr>)))
               = map_option ResTask (taskOf h' b)"
    using a handleTasksGet_responseTaskOf [of h a s k hl b h' rid] by blast
next
  fix h a hl inc b h'
  assume "storedTask h a \<and> taskOf h a = Some t \<and> pageTaskOf hl inc a h = (b, h')"
  then show "taskOf h' b = Some (pageTask hl inc t)"
    using pageTaskOf_task [of h a t hl inc b h'] by blast
qed

lemma ex_heap_stored: "storedTask ex_heap 0" and ex_heap_task: "taskOf ex_heap 0 = Some ex_task"
  by (simp_all add: storedTask_def taskOf_def ex_heap_def ex_task_def)

lemma ex_heap_response:
  "responseTaskOf (Some 1) 0 ex_heap =
     (3, \<lparr>objects = [0 \<mapsto> \<lparr>id_o = ''t1'', contextId_o = Some (JStr ''c1''),
                              status_o = status ex_task, artifacts_o = Some 1,
                              history_o = Some 2, metadata_o = metadata ex_task\<rparr>,
                      3 \<mapsto> \<lparr>id_o = ''t1'', contextId_o = Some (JStr ''c1''),
                              status_o = status ex_task, artifacts_o = Some 1,
                              history_o = Some 4, metadata_o = metadata ex_task\<rparr>],
          arrays = [1 \<mapsto> [JObj [(''name'', JStr ''a1'')]],
                    2 \<mapsto> [ex_msg ''m1'', ex_msg ''m2'', ex_msg ''m3''],
                    4 \<mapsto> [ex_msg ''m3'']],
          nextRef = 5\<rparr>)"
  by (simp add: responseTaskOf_def ex_heap_def newObject_def newArray_def updateObject_def
      slice1_def relIndex_def Let_def)

theorem history_never_shrinks_witness:
  "tasks_get (tasks ex_server) ''t1'' = Some ex_task \<and> (\<forall>n. uuids ex_server n \<noteq> ''t1'') \<and>
   storedTask ex_heap 0 \<and> taskOf ex_heap 0 = Some ex_task \<and> ''t1'' \<noteq> [] \<and>
   (\<exists>t'. tasks_get (tasks (fold (step ex_echo ex_parseDate)
             [Request (Some (IdNum 1)) (MessageSend (ex_sendTo ''t1'')),
              Request (Some (IdNum 2)) (TasksGet (Some \<lparr>id_g = ''t1'', historyLength = Some 1\<rparr>)),
              ContextSendStatus ''t1'' ex_completed] ex_server)) ''t1'' = Some t'
        \<and> (\<exists>ys. histOf t' = [ex_msg ''m1'', ex_msg ''m2'', ex_msg ''m3''] @ ys)) \<and>
   tasks (snd (handleTasksGet ex_server (Some (IdNum 2))
                 (Some \<lparr>id_g = ''t1'', historyLength = Some 1\<rparr>))) = tasks ex_server \<and>
   unchangedHeap ex_heap (snd (responseTaskOf (Some 1) 0 ex_heap)) \<and>
   taskOf (snd (responseTaskOf (Some 1) 0 ex_heap)) 0 = Some ex_task \<and>
   taskOf (snd (responseTaskOf (Some 1) 0 ex_heap)) 3
     = Some (ex_task\<lparr>history := Some [ex_msg ''m3'']\<rparr>) \<and>
   result (fst (handleTasksGet ex_server (Some (IdNum 2))
                 (Some \<lparr>id_g = ''t1'', historyLength = Some 1\<rparr>)))
     = Some (ResTask (ex_task\<lparr>history := Some [ex_msg ''m3'']\<rparr>))"
proof -
  have g: "tasks_get (tasks ex_server) ''t1'' = Some ex_task"
    by (simp add: ex_server_def tasks_get_def)
  have u: "\<forall>n. uuids ex_server n \<noteq> ''t1''"
    by (simp add: ex_server_def ex_uuids_def)
  have h: "histOf ex_task = [ex_msg ''m1'', ex_msg ''m2'', ex_msg ''m3'']"
    by (simp add: histOf_def ex_task_def)
  have t3: "taskOf (snd (responseTaskOf (Some 1) 0 ex_heap)) 3
     = Some (ex_task\<lparr>history := Some [ex_msg ''m3'']\<rparr>)"
    by (simp add: ex_heap_response taskOf_def ex_task_def)
  have hl: "case Some (1::int) of None \<Rightarrow> True | Some n \<Rightarrow> 0 \<le> n" by simp
  note inst = history_never_shrinks [OF g u, of ex_echo ex_parseDate]
  note c2 = inst [THEN conjunct2, THEN conjunct1, rule_format]
  note c3 = inst [THEN conjunct2, THEN conjunct2, THEN conjunct1, rule_format]
  note c5 = inst [THEN conjunct2, THEN conjunct2, THEN conjunct2, THEN conjunct2, THEN conjunct1,
      rule_format]
  note c7 = inst [THEN conjunct2, THEN conjunct2, THEN conjunct2, THEN conjunct2, THEN conjunct2,
      THEN conjunct2, THEN conjunct1, rule_format]
  have run: "\<exists>t'. tasks_get (tasks (fold (step ex_echo ex_parseDate)
             [Request (Some (IdNum 1)) (MessageSend (ex_sendTo ''t1'')),
              Request (Some (IdNum 2)) (TasksGet (Some \<lparr>id_g = ''t1'', historyLength = Some 1\<rparr>)),
              ContextSendStatus ''t1'' ex_completed] ex_server)) ''t1'' = Some t'
        \<and> (\<exists>ys. histOf t' = [ex_msg ''m1'', ex_msg ''m2'', ex_msg ''m3''] @ ys)"
    using c2 [of "[Request (Some (IdNum 1)) (MessageSend (ex_sendTo ''t1'')),
              Request (Some (IdNum 2)) (TasksGet (Some \<lparr>id_g = ''t1'', historyLength = Some 1\<rparr>)),
              ContextSendStatus ''t1'' ex_completed]"]
    unfolding h by simp
  have tg: "tasks (snd (handleTasksGet ex_server (Some (IdNum 2))
                 (Some \<lparr>id_g = ''t1'', historyLength = Some 1\<rparr>))) = tasks ex_server"
    by (rule c3)
  have rp: "responseTaskOf (Some 1) 0 ex_heap = (3, snd (responseTaskOf (Some 1) 0 ex_heap))"
    by (simp add: ex_heap_response)
  have fr: "unchangedHeap ex_heap (snd (responseTaskOf (Some 1) 0 ex_heap))
          \<and> taskOf (snd (responseTaskOf (Some 1) 0 ex_heap)) 0 = taskOf ex_heap 0"
    using c5 [of ex_heap 0 "Some 1" 3 "snd (responseTaskOf (Some 1) 0 ex_heap)"] ex_heap_stored rp
    by simp
  have rs: "result (fst (handleTasksGet ex_server (Some (IdNum 2))
                 (Some \<lparr>id_g = ''t1'', historyLength = Some 1\<rparr>)))
     = map_option ResTask (taskOf (snd (responseTaskOf (Some 1) 0 ex_heap)) 3)"
    using c7 [of ex_heap 0 "Some 1" 3 "snd (responseTaskOf (Some 1) 0 ex_heap)" "Some (IdNum 2)"]
      ex_heap_stored ex_heap_task rp
    by simp
  show ?thesis
    using g u ex_heap_stored ex_heap_task run tg fr rs t3 by simp
qed

end
